theory Spec2Isabelle
  imports Complex_Main "HOL-Library.Log_Nat"
begin

section \<open>Python values\<close>

subsection \<open>Exceptions\<close>

text \<open>
  A call that raises returns \<open>Inl\<close> of the exception; only the class of the exception is
  kept. Every class below derives from \<^verbatim>\<open>Exception\<close>, so \<^verbatim>\<open>except Exception\<close> catches each.
\<close>

datatype error =
  KeyError | TypeError | AttributeError | ValueError | OverflowError | ZeroDivisionError
  | RequestException | JSONDecodeError | TimeoutError | PlaywrightError

definition then_do :: "error + 'a \<Rightarrow> ('a \<Rightarrow> error + 'b) \<Rightarrow> error + 'b" where
  \<comment> \<open>the next statement runs only if the one before did not raise\<close>
  "then_do r f = (case r of Inl e \<Rightarrow> Inl e | Inr x \<Rightarrow> f x)"

subsection \<open>Strings\<close>

text \<open>
  A Python \<^verbatim>\<open>str\<close> is a sequence of Unicode code points. The price text read from
  the page contains characters beyond Latin-1 (the euro sign, narrow no-break spaces),
  so a string is a list of code points; \<open>ascii\<close> embeds an ASCII literal.
\<close>

type_synonym str = "nat list"

definition ascii :: "string \<Rightarrow> str" where
  "ascii s = map of_char s"

definition is_space :: "nat \<Rightarrow> bool" where
  \<comment> \<open>\<^verbatim>\<open>str.isspace\<close>, which is also what \<^verbatim>\<open>\s\<close> matches in a \<^verbatim>\<open>str\<close> pattern\<close>
  "is_space c \<longleftrightarrow>
     (9 \<le> c \<and> c \<le> 13) \<or> (28 \<le> c \<and> c \<le> 32) \<or> c = 133 \<or> c = 160 \<or> c = 5760 \<or>
     (8192 \<le> c \<and> c \<le> 8202) \<or> c = 8232 \<or> c = 8233 \<or> c = 8239 \<or> c = 8287 \<or> c = 12288"

definition nd_zeros :: "nat list" where
  \<comment> \<open>the code points of the digit zero of every decimal-digit block (general category
      Nd, Unicode 14); each is followed by the digits one to nine of its script\<close>
  "nd_zeros =
    [48, 1632, 1776, 1984, 2406, 2534, 2662, 2790, 2918, 3046, 3174, 3302, 3430, 3558,
     3664, 3792, 3872, 4160, 4240, 6112, 6160, 6470, 6608, 6784, 6800, 6992, 7088, 7232,
     7248, 42528, 43216, 43264, 43472, 43504, 43600, 44016, 65296, 66720, 68912, 69734,
     69872, 69942, 70096, 70384, 70736, 70864, 71248, 71360, 71472, 71904, 72016, 72784,
     73040, 73120, 92768, 92864, 93008, 120782, 120792, 120802, 120812, 120822, 123200,
     123632, 125264, 130032]"

definition digit_value :: "nat \<Rightarrow> nat option" where
  \<comment> \<open>the decimal value of a code point that \<^verbatim>\<open>\d\<close> matches, \<open>None\<close> for any other\<close>
  "digit_value c = map_option (\<lambda>z. c - z) (find (\<lambda>z. z \<le> c \<and> c < z + 10) nd_zeros)"

definition is_digit :: "nat \<Rightarrow> bool" where
  "is_digit c \<longleftrightarrow> digit_value c \<noteq> None"

definition strip :: "str \<Rightarrow> str" where
  \<comment> \<open>\<^verbatim>\<open>s.strip()\<close>\<close>
  "strip s = rev (dropWhile is_space (rev (dropWhile is_space s)))"

definition replace_char :: "nat \<Rightarrow> nat \<Rightarrow> str \<Rightarrow> str" where
  \<comment> \<open>\<^verbatim>\<open>s.replace(a, b)\<close> for one-character \<open>a\<close> and \<open>b\<close>\<close>
  "replace_char a b s = map (\<lambda>c. if c = a then b else c) s"

abbreviation comma :: nat where "comma \<equiv> 44"
abbreviation period :: nat where "period \<equiv> 46"

subsection \<open>Floats\<close>

text \<open>
  A Python \<^verbatim>\<open>float\<close> is an IEEE 754 binary64 value: a finite number, which is a
  rational, one of the two infinities, or a NaN. The two zeros are one value here: they
  are equal under every comparison, and the program never prints or divides by one.
  Every arithmetic operation and \<^verbatim>\<open>float(str)\<close> returns the exact result rounded to the
  nearest binary64 number, ties to the even significand, and an infinity when the rounded
  magnitude reaches \<open>2 ^ 1024\<close>; \<open>rnd\<close> is the rounding with an unbounded exponent,
  \<open>round_float\<close> adds the overflow.
\<close>

datatype pyfloat = Finite rat | PInf | NInf | NaN

definition pow2 :: "int \<Rightarrow> rat" where
  "pow2 e = (if 0 \<le> e then 2 ^ nat e else 1 / 2 ^ nat (- e))"

definition ilog2 :: "rat \<Rightarrow> int" where
  \<comment> \<open>for \<open>0 < x\<close>, the \<open>e\<close> with \<open>2 ^ e \<le> x < 2 ^ (e + 1)\<close>\<close>
  "ilog2 x = (if 1 \<le> x then bitlen \<lfloor>x\<rfloor> - 1 else - bitlen (\<lceil>1 / x\<rceil> - 1))"

definition nearest_even :: "rat \<Rightarrow> int" where
  "nearest_even n =
     (let f = \<lfloor>n\<rfloor>; d = n - of_int f
      in if d < 1 / 2 then f else if 1 / 2 < d then f + 1 else if even f then f else f + 1)"

definition ulp :: "rat \<Rightarrow> rat" where
  \<comment> \<open>spacing of the binary64 numbers around \<open>x\<close>: 53 significant bits, fixed at
      \<open>2 ^ - 1074\<close> in the subnormal range\<close>
  "ulp x = pow2 (max (ilog2 \<bar>x\<bar>) (- 1022) - 52)"

definition rnd :: "rat \<Rightarrow> rat" where
  "rnd x = (if x = 0 then 0 else of_int (nearest_even (x / ulp x)) * ulp x)"

definition round_float :: "rat \<Rightarrow> pyfloat" where
  "round_float x =
     (if 2 ^ 1024 \<le> rnd x then PInf else if rnd x \<le> - (2 ^ 1024) then NInf
      else Finite (rnd x))"

definition infinity :: "bool \<Rightarrow> pyfloat" where
  "infinity pos = (if pos then PInf else NInf)"

fun positive :: "pyfloat \<Rightarrow> bool" where
  "positive (Finite a) = (0 < a)"
| "positive PInf = True"
| "positive NInf = False"
| "positive NaN = False"

fun is_zero :: "pyfloat \<Rightarrow> bool" where
  \<comment> \<open>\<^verbatim>\<open>x == 0\<close>\<close>
  "is_zero (Finite a) = (a = 0)"
| "is_zero x = False"

fun nonnegative :: "pyfloat \<Rightarrow> bool" where
  \<comment> \<open>\<^verbatim>\<open>x >= 0\<close>\<close>
  "nonnegative (Finite a) = (0 \<le> a)"
| "nonnegative PInf = True"
| "nonnegative NInf = False"
| "nonnegative NaN = False"

fun fsub :: "pyfloat \<Rightarrow> pyfloat \<Rightarrow> pyfloat" where
  \<comment> \<open>\<^verbatim>\<open>a - b\<close>\<close>
  "fsub (Finite a) (Finite b) = round_float (a - b)"
| "fsub NaN b = NaN"
| "fsub a NaN = NaN"
| "fsub PInf PInf = NaN"
| "fsub NInf NInf = NaN"
| "fsub PInf b = PInf"
| "fsub NInf b = NInf"
| "fsub a PInf = NInf"
| "fsub a NInf = PInf"

fun fmul :: "pyfloat \<Rightarrow> pyfloat \<Rightarrow> pyfloat" where
  \<comment> \<open>\<^verbatim>\<open>a * b\<close>\<close>
  "fmul (Finite a) (Finite b) = round_float (a * b)"
| "fmul NaN b = NaN"
| "fmul a NaN = NaN"
| "fmul a b = (if is_zero a \<or> is_zero b then NaN else infinity (positive a = positive b))"

fun fdiv :: "pyfloat \<Rightarrow> pyfloat \<Rightarrow> error + pyfloat" where
  \<comment> \<open>\<^verbatim>\<open>a / b\<close>\<close>
  "fdiv (Finite a) (Finite b) =
     (if b = 0 then Inl ZeroDivisionError else Inr (round_float (a / b)))"
| "fdiv NaN (Finite b) = (if b = 0 then Inl ZeroDivisionError else Inr NaN)"
| "fdiv a (Finite b) =
     (if b = 0 then Inl ZeroDivisionError else Inr (infinity (positive a = (0 < b))))"
| "fdiv NaN b = Inr NaN"
| "fdiv a NaN = Inr NaN"
| "fdiv (Finite a) b = Inr (Finite 0)"
| "fdiv a b = Inr NaN"

subsection \<open>Reading a float\<close>

text \<open>
  \<^verbatim>\<open>float(s)\<close> on a \<^verbatim>\<open>str\<close>: every character beyond ASCII is first replaced, a
  whitespace character by a space, a decimal digit of any script by its ASCII digit, any
  other by a question mark; ASCII whitespace is trimmed from both ends; underscores are
  removed where they stand between two digits and refused elsewhere. What remains must be
  a sign, then \<^verbatim>\<open>inf\<close>, \<^verbatim>\<open>infinity\<close> or \<^verbatim>\<open>nan\<close> in any case, or digits with at most
  one period and at least one digit, and an optional exponent.
\<close>

definition to_ascii :: "nat \<Rightarrow> nat" where
  "to_ascii c =
     (if c < 128 then c else if is_space c then 32
      else case digit_value c of Some d \<Rightarrow> 48 + d | None \<Rightarrow> 63)"

definition ascii_space :: "nat \<Rightarrow> bool" where
  "ascii_space c \<longleftrightarrow> (9 \<le> c \<and> c \<le> 13) \<or> c = 32"

definition ascii_digit :: "nat \<Rightarrow> bool" where
  "ascii_digit c \<longleftrightarrow> 48 \<le> c \<and> c \<le> 57"

definition strip_ascii :: "str \<Rightarrow> str" where
  "strip_ascii s = rev (dropWhile ascii_space (rev (dropWhile ascii_space s)))"

fun underscores :: "nat \<Rightarrow> str \<Rightarrow> str option" where
  \<comment> \<open>the text without its underscores, after the character \<open>prev\<close>; \<open>None\<close> when an
      underscore does not follow a digit, is not followed by one, or ends the text\<close>
  "underscores prev [] = (if prev = 95 then None else Some [])"
| "underscores prev (c # cs) =
     (if c = 95 then (if ascii_digit prev then underscores c cs else None)
      else if prev = 95 \<and> \<not> ascii_digit c then None
      else map_option ((#) c) (underscores c cs))"

definition lower :: "nat \<Rightarrow> nat" where
  "lower c = (if 65 \<le> c \<and> c \<le> 90 then c + 32 else c)"

definition split_sign :: "str \<Rightarrow> bool \<times> str" where
  \<comment> \<open>an optional sign: whether it is a minus, and the text after it\<close>
  "split_sign t =
     (case t of
        [] \<Rightarrow> (False, [])
      | c # r \<Rightarrow> if c = 45 then (True, r) else if c = 43 then (False, r) else (False, t))"

fun decimal_nat :: "nat \<Rightarrow> str \<Rightarrow> nat" where
  \<comment> \<open>the number written by a run of digits, after the digits already read\<close>
  "decimal_nat acc [] = acc"
| "decimal_nat acc (c # cs) =
     decimal_nat (10 * acc + (case digit_value c of Some d \<Rightarrow> d | None \<Rightarrow> 0)) cs"

definition exponent :: "str \<Rightarrow> int option" where
  \<comment> \<open>what follows the digits: nothing, or \<^verbatim>\<open>e\<close>, an optional sign and digits\<close>
  "exponent r =
     (case r of
        [] \<Rightarrow> Some 0
      | c # r' \<Rightarrow>
          if c = 101 \<or> c = 69 then
            (let (neg, ds) = split_sign r'
             in if ds \<noteq> [] \<and> list_all ascii_digit ds
                then Some (if neg then - int (decimal_nat 0 ds) else int (decimal_nat 0 ds))
                else None)
          else None)"

definition scale10 :: "rat \<Rightarrow> int \<Rightarrow> rat" where
  "scale10 m e = (if 0 \<le> e then m * 10 ^ nat e else m / 10 ^ nat (- e))"

definition float_literal :: "str \<Rightarrow> error + pyfloat" where
  "float_literal t =
     (let (neg, body) = split_sign t; word = map lower body
      in if word = [105, 110, 102] \<or> word = [105, 110, 102, 105, 110, 105, 116, 121]
         then Inr (infinity (\<not> neg))
         else if word = [110, 97, 110] then Inr NaN
         else
           let ip = takeWhile ascii_digit body; r1 = dropWhile ascii_digit body;
               (fp, r2) =
                  (case r1 of
                     [] \<Rightarrow> ([], [])
                   | c # r \<Rightarrow>
                       if c = period then (takeWhile ascii_digit r, dropWhile ascii_digit r)
                       else ([], r1))
           in if ip = [] \<and> fp = [] then Inl ValueError
              else
                (case exponent r2 of
                   None \<Rightarrow> Inl ValueError
                 | Some e \<Rightarrow>
                     let v = scale10 (of_nat (decimal_nat 0 (ip @ fp))) (e - int (length fp))
                     in Inr (round_float (if neg then - v else v))))"

definition float_of_str :: "str \<Rightarrow> error + pyfloat" where
  \<comment> \<open>\<^verbatim>\<open>float(s)\<close>\<close>
  "float_of_str s =
     (case underscores 0 (strip_ascii (map to_ascii s)) of
        None \<Rightarrow> Inl ValueError
      | Some t \<Rightarrow> float_literal t)"

section \<open>Price text\<close>

text \<open>
  \<^verbatim>\<open>
  def parse_price_text(text):
      if not text:
          return None
      cleaned = re.sub(r"[^\d,.\s]", "", text).strip().replace(",", ".")
      m = re.search(r"\d+(\.\d{1,2})?", cleaned)
      return float(m.group(0)) if m else None
  \<close>
\<close>

definition keep_char :: "nat \<Rightarrow> bool" where
  \<comment> \<open>the complement of the class \<^verbatim>\<open>[^\d,.\s]\<close>\<close>
  "keep_char c \<longleftrightarrow> is_digit c \<or> c = comma \<or> c = period \<or> is_space c"

definition cleaned :: "str \<Rightarrow> str" where
  "cleaned text = replace_char comma period (strip (filter keep_char text))"

fun fraction :: "str \<Rightarrow> str" where
  \<comment> \<open>the optional group \<^verbatim>\<open>(\.\d{1,2})?\<close> at the head of the rest: greedy, so two digits
      when there are two\<close>
  "fraction (c # d1 # d2 # r) =
     (if c = period \<and> is_digit d1 then (if is_digit d2 then [c, d1, d2] else [c, d1]) else [])"
| "fraction [c, d1] = (if c = period \<and> is_digit d1 then [c, d1] else [])"
| "fraction r = []"

definition search_price :: "str \<Rightarrow> str option" where
  \<comment> \<open>\<^verbatim>\<open>re.search(r"\d+(\.\d{1,2})?", s)\<close>, the text of group 0: the leftmost position where
      the pattern matches is the first digit; \<^verbatim>\<open>\d+\<close> takes the whole run of digits\<close>
  "search_price s =
     (case dropWhile (\<lambda>c. \<not> is_digit c) s of
        [] \<Rightarrow> None
      | t \<Rightarrow> Some (takeWhile is_digit t @ fraction (dropWhile is_digit t)))"

definition parse_price_text :: "str option \<Rightarrow> error + pyfloat option" where
  "parse_price_text text =
     (case text of
        None \<Rightarrow> Inr None
      | Some t \<Rightarrow>
          if t = [] then Inr None
          else
            (case search_price (cleaned t) of
               None \<Rightarrow> Inr None
             | Some m \<Rightarrow> then_do (float_of_str m) (\<lambda>x. Inr (Some x))))"

text \<open>
  The parser's contract in the specification's words: the result is read from the first
  substring that is an integer part plus an optional fractional part of one or two digits.
  Of the substrings of that shape starting at the first possible position, it is the longest.
\<close>

definition normalized :: "str \<Rightarrow> str" where
  \<comment> \<open>the text without the characters that are not a digit, a comma, a period or
      whitespace, each comma turned into a period\<close>
  "normalized t =
     map (\<lambda>c. if c = comma then period else c)
       (filter (\<lambda>c. is_digit c \<or> c = comma \<or> c = period \<or> is_space c) t)"

definition decimal_value :: "str \<Rightarrow> rat" where
  \<comment> \<open>the number that \<^verbatim>\<open>digits\<close> or \<^verbatim>\<open>digits.digits\<close> writes\<close>
  "decimal_value s =
     (let ip = takeWhile is_digit s; fp = drop (Suc (length ip)) s
      in of_nat (decimal_nat 0 ip) + of_nat (decimal_nat 0 fp) / 10 ^ length fp)"

definition price_shaped :: "str \<Rightarrow> bool" where
  "price_shaped m \<longleftrightarrow>
     (\<exists>ip fp. m = ip @ fp \<and> ip \<noteq> [] \<and> list_all is_digit ip \<and>
        (fp = [] \<or> (\<exists>ds. fp = period # ds \<and> (length ds = 1 \<or> length ds = 2) \<and>
                           list_all is_digit ds)))"

definition occurs_at :: "str \<Rightarrow> nat \<Rightarrow> str \<Rightarrow> bool" where
  "occurs_at s i m \<longleftrightarrow> (\<exists>post. drop i s = m @ post) \<and> i \<le> length s"

definition first_price_match :: "str \<Rightarrow> str \<Rightarrow> bool" where
  "first_price_match s m \<longleftrightarrow>
     (\<exists>i. occurs_at s i m \<and> price_shaped m \<and>
        (\<forall>j m'. occurs_at s j m' \<and> price_shaped m' \<longrightarrow>
                 i < j \<or> (i = j \<and> length m' \<le> length m)))"

section \<open>Savings\<close>

text \<open>
  \<^verbatim>\<open>
  def calculate_savings(steam_price, goclecd_price):
      if steam_price is None or goclecd_price is None or steam_price == 0:
          return None, None
      savings_eur = steam_price - goclecd_price
      savings_pct = (savings_eur / steam_price) * 100
      return savings_eur, savings_pct
  \<close>
  Both prices are floats, or the integer \<^verbatim>\<open>0\<close> that \<^verbatim>\<open>get_steam_price\<close> returns, which
  is \<open>Finite 0\<close> here and which the guard catches; each of the three operations rounds.
\<close>

definition calculate_savings ::
  "pyfloat option \<Rightarrow> pyfloat option \<Rightarrow> error + (pyfloat option \<times> pyfloat option)" where
  "calculate_savings steam_price goclecd_price =
     (case steam_price of
        None \<Rightarrow> Inr (None, None)
      | Some s \<Rightarrow>
          (case goclecd_price of
             None \<Rightarrow> Inr (None, None)
           | Some g \<Rightarrow>
               if is_zero s then Inr (None, None)
               else
                 (let savings_eur = fsub s g
                  in then_do (fdiv savings_eur s) (\<lambda>q.
                     let savings_pct = fmul q (Finite 100)
                     in Inr (Some savings_eur, Some savings_pct)))))"

section \<open>The Steam price lookup\<close>

text \<open>The value \<^verbatim>\<open>response.json()\<close> returns; an object keeps its keys in an association list.\<close>

datatype json =
  JNull | JBool bool | JInt int | JFloat pyfloat | JStr str | JList "json list"
  | JDict "(str \<times> json) list"

fun truthy :: "json \<Rightarrow> bool" where
  "truthy JNull = False"
| "truthy (JBool b) = b"
| "truthy (JInt i) = (i \<noteq> 0)"
| "truthy (JFloat x) = (\<not> is_zero x)"
| "truthy (JStr s) = (s \<noteq> [])"
| "truthy (JList xs) = (xs \<noteq> [])"
| "truthy (JDict kvs) = (kvs \<noteq> [])"

fun subscript :: "json \<Rightarrow> str \<Rightarrow> error + json" where
  \<comment> \<open>\<^verbatim>\<open>obj[key]\<close> with a string key\<close>
  "subscript (JDict kvs) key = (case map_of kvs key of None \<Rightarrow> Inl KeyError | Some v \<Rightarrow> Inr v)"
| "subscript obj key = Inl TypeError"

fun get_method :: "json \<Rightarrow> str \<Rightarrow> error + json" where
  \<comment> \<open>\<^verbatim>\<open>obj.get(key)\<close>\<close>
  "get_method (JDict kvs) key = Inr (case map_of kvs key of None \<Rightarrow> JNull | Some v \<Rightarrow> v)"
| "get_method obj key = Inl AttributeError"

definition true_div :: "int \<Rightarrow> int \<Rightarrow> error + pyfloat" where
  \<comment> \<open>\<^verbatim>\<open>a / b\<close> on two integers: the quotient rounded to a float, an error when it is
      beyond the float range\<close>
  "true_div a b =
     (if b = 0 then Inl ZeroDivisionError
      else if 2 ^ 1024 \<le> \<bar>rnd (of_int a / of_int b)\<bar> then Inl OverflowError
      else Inr (Finite (rnd (of_int a / of_int b))))"

fun div_100 :: "json \<Rightarrow> error + pyfloat" where
  \<comment> \<open>\<^verbatim>\<open>x / 100\<close>\<close>
  "div_100 (JInt i) = true_div i 100"
| "div_100 (JBool b) = true_div (if b then 1 else 0) 100"
| "div_100 (JFloat x) = fdiv x (Finite 100)"
| "div_100 x = Inl TypeError"

fun nat_digits :: "nat \<Rightarrow> str" where
  "nat_digits n = (if n < 10 then [48 + n] else nat_digits (n div 10) @ [48 + n mod 10])"

definition str_of_int :: "int \<Rightarrow> str" where
  \<comment> \<open>\<^verbatim>\<open>str(i)\<close>\<close>
  "str_of_int i = (if i < 0 then 45 # nat_digits (nat (- i)) else nat_digits (nat i))"

text \<open>
  \<^verbatim>\<open>
  def get_steam_price(app_id, country="fr"):
      url = f"https://store.steampowered.com/api/appdetails?appids={app_id}&cc={country}&l=fr"
      try:
          response = requests.get(url, timeout=10)
          data = response.json()
          if data[str(app_id)]["success"]:
              price_info = data[str(app_id)]["data"].get("price_overview")
              if price_info:
                  return price_info["final"] / 100
              else:
                  return 0
      except Exception:
          return None
      return None
  \<close>
  The outside world is the outcome of the request: it fails, or its body does not decode,
  or it decodes to a value.
\<close>

datatype http_outcome = RequestFails | NotJson | Json json

definition steam_lookup :: "json \<Rightarrow> int \<Rightarrow> error + pyfloat option" where
  \<comment> \<open>the body of the \<^verbatim>\<open>try\<close>, after the decoding\<close>
  "steam_lookup data app_id =
     then_do (subscript data (str_of_int app_id)) (\<lambda>entry.
     then_do (subscript entry (ascii ''success'')) (\<lambda>success.
       if truthy success then
         then_do (subscript entry (ascii ''data'')) (\<lambda>d.
         then_do (get_method d (ascii ''price_overview'')) (\<lambda>price_info.
           if truthy price_info then
             then_do (subscript price_info (ascii ''final'')) (\<lambda>final.
             then_do (div_100 final) (\<lambda>x. Inr (Some x)))
           else Inr (Some (Finite 0))))
       else Inr None))"

definition get_steam_price :: "http_outcome \<Rightarrow> int \<Rightarrow> pyfloat option" where
  "get_steam_price response app_id =
     (case response of
        RequestFails \<Rightarrow> None
      | NotJson \<Rightarrow> None
      | Json data \<Rightarrow> (case steam_lookup data app_id of Inl e \<Rightarrow> None | Inr v \<Rightarrow> v))"

section \<open>The browser\<close>

text \<open>
  Every call into Playwright either returns or raises, and what it does is decided by the
  remote page, not by the program. A run of a function is therefore described by the
  outcome of each call it can make, one per place in the source, and the function returns
  its result together with the calls it made, in order, each marked with whether it
  returned.
\<close>

datatype call =
    SyncPlaywrightEnter
  | SyncPlaywrightExit
  | Launch
  | NewPage
  | Goto str
  | WaitForLoadState string
  | QuerySelector string
  | Click string nat
  | WaitForSelector string string nat
  | Evaluate string
  | WaitForTimeout nat
  | LocatorWaitFor string string nat
  | LocatorCount string
  | GetAttribute string string
  | TextContent string
  | BrowserClose

type_synonym event = "call \<times> bool"

type_synonym 'a io = "(error + 'a) \<times> event list"

definition io_return :: "'a \<Rightarrow> 'a io" where
  "io_return x = (Inr x, [])"

definition io_pure :: "error + 'a \<Rightarrow> 'a io" where
  \<comment> \<open>a computation that calls nothing\<close>
  "io_pure r = (r, [])"

definition io_call :: "call \<Rightarrow> error + 'a \<Rightarrow> 'a io" where
  "io_call c outcome = (outcome, [(c, case outcome of Inl e \<Rightarrow> False | Inr x \<Rightarrow> True)])"

definition io_bind :: "'a io \<Rightarrow> ('a \<Rightarrow> 'b io) \<Rightarrow> 'b io" where
  \<comment> \<open>one statement after another: the second runs only if the first did not raise\<close>
  "io_bind m f =
     (case fst m of
        Inl e \<Rightarrow> (Inl e, snd m)
      | Inr x \<Rightarrow> (fst (f x), snd m @ snd (f x)))"

definition io_try :: "'a io \<Rightarrow> 'a io \<Rightarrow> 'a io" where
  \<comment> \<open>\<^verbatim>\<open>try: m  except Exception: handler\<close>\<close>
  "io_try m handler =
     (case fst m of
        Inl e \<Rightarrow> (fst handler, snd m @ snd handler)
      | Inr x \<Rightarrow> m)"

definition with_playwright :: "error + unit \<Rightarrow> 'a io \<Rightarrow> 'a io" where
  \<comment> \<open>\<^verbatim>\<open>with sync_playwright() as p: body\<close>. If entering raises, the body does not run.
      Otherwise the block is left through the manager's exit, whether the body returned or
      raised; the exit returns and does not swallow the exception.\<close>
  "with_playwright enter body =
     io_bind (io_call SyncPlaywrightEnter enter)
       (\<lambda>_. (fst body, snd body @ [(SyncPlaywrightExit, True)]))"

subsection \<open>The cookie banner\<close>

text \<open>
  \<^verbatim>\<open>
  def accept_cookies_if_present(page):
      selectors = [
          "button#onetrust-accept-btn-handler",
          "button:has-text('Accepter')",
          "button:has-text('Accept')",
          "text=Ok",
      ]
      for sel in selectors:
          try:
              el = page.query_selector(sel)
              if el:
                  el.click(timeout=1000)
                  break
          except Exception:
              pass
  \<close>
  The page answers a selector with an exception, with no element, or with an element and
  the outcome of a click on it.
\<close>

type_synonym cookie_page = "string \<Rightarrow> error + (error + unit) option"

definition selectors :: "string list" where
  "selectors =
     [''button#onetrust-accept-btn-handler'',
      ''button:has-text('Accepter')'',
      ''button:has-text('Accept')'',
      ''text=Ok'']"

fun accept_cookies_loop :: "cookie_page \<Rightarrow> string list \<Rightarrow> unit io" where
  "accept_cookies_loop page [] = io_return ()"
| "accept_cookies_loop page (sel # sels) =
     io_bind
       (io_try
          (io_bind (io_call (QuerySelector sel) (page sel)) (\<lambda>el.
             case el of
               None \<Rightarrow> io_return False
             | Some click \<Rightarrow> io_bind (io_call (Click sel 1000) click) (\<lambda>_. io_return True)))
          (io_return False))
       (\<lambda>clicked. if clicked then io_return () else accept_cookies_loop page sels)"

definition accept_cookies_if_present :: "cookie_page \<Rightarrow> unit io" where
  "accept_cookies_if_present page = accept_cookies_loop page selectors"

subsection \<open>The offer table\<close>

text \<open>
  \<^verbatim>\<open>
  def wait_for_offer_rows(page, timeout_ms=20000):
      page.wait_for_selector("table#offerTable", state="attached", timeout=timeout_ms)
      page.wait_for_selector("table#offerTable tbody tr", state="attached", timeout=timeout_ms)
      page.evaluate("window.scrollTo(0, document.body.scrollHeight/3)")
      price_span = page.wait_for_selector("table#offerTable tbody tr td.offers-price a span",
                                          state="visible", timeout=timeout_ms)
      return price_span
  \<close>
  The element returned is not used by the caller.
\<close>

record waiter_page =
  table_attached :: "error + unit"
  row_attached :: "error + unit"
  scrolled :: "error + unit"
  price_visible :: "error + unit"

definition wait_for_offer_rows :: "waiter_page \<Rightarrow> nat \<Rightarrow> unit io" where
  "wait_for_offer_rows page timeout_ms =
     io_bind (io_call (WaitForSelector ''table#offerTable'' ''attached'' timeout_ms)
                (table_attached page)) (\<lambda>_.
     io_bind (io_call (WaitForSelector ''table#offerTable tbody tr'' ''attached'' timeout_ms)
                (row_attached page)) (\<lambda>_.
     io_bind (io_call (Evaluate ''window.scrollTo(0, document.body.scrollHeight/3)'')
                (scrolled page)) (\<lambda>_.
     io_call (WaitForSelector ''table#offerTable tbody tr td.offers-price a span'' ''visible''
                timeout_ms)
       (price_visible page))))"

definition waits :: "event list \<Rightarrow> nat" where
  \<comment> \<open>how many times a run started the waiter with the timeout of 25 seconds: each
      start makes the wait for the table, once, before anything else\<close>
  "waits trace =
     length (filter (\<lambda>e. fst e = WaitForSelector ''table#offerTable'' ''attached'' 25000) trace)"

text \<open>
  \<^verbatim>\<open>
  def extract_first_offer(page):
      try:
          wait_for_offer_rows(page, timeout_ms=25000)
      except Exception:
          page.wait_for_timeout(1000)
          try:
              wait_for_offer_rows(page, timeout_ms=25000)
          except Exception:
              return None, None

      price_el = page.query_selector("table#offerTable tbody tr:nth-child(1) td.offers-price a span")
      price_text = (price_el.text_content() or "").strip() if price_el else None
      price = parse_price_text(price_text)

      merchant_el = page.query_selector("table#offerTable tbody tr:nth-child(1) td.offers-merchant a")
      merchant = (merchant_el.text_content() or "").strip() if merchant_el else "N/A"

      return price, merchant
  \<close>
  The page answers each of the two waits on its own. A cell is answered with an exception,
  with no element, or with an element and the outcome of reading its text, which may be
  no text.
\<close>

type_synonym cell = "error + (error + str option) option"

record offer_page =
  first_wait :: waiter_page
  pause :: "error + unit"
  second_wait :: waiter_page
  price_cell :: cell
  merchant_cell :: cell

definition or_empty :: "str option \<Rightarrow> str" where
  \<comment> \<open>\<^verbatim>\<open>t or ""\<close>\<close>
  "or_empty t = (case t of None \<Rightarrow> [] | Some s \<Rightarrow> s)"

definition extract_first_offer :: "offer_page \<Rightarrow> (pyfloat option \<times> str option) io" where
  "extract_first_offer page =
     io_bind
       (io_try
          (io_bind (wait_for_offer_rows (first_wait page) 25000) (\<lambda>_. io_return True))
          (io_bind (io_call (WaitForTimeout 1000) (pause page)) (\<lambda>_.
           io_try
             (io_bind (wait_for_offer_rows (second_wait page) 25000) (\<lambda>_. io_return True))
             (io_return False))))
       (\<lambda>rows.
          if \<not> rows then io_return (None, None)
          else
            io_bind (io_call
                       (QuerySelector
                          ''table#offerTable tbody tr:nth-child(1) td.offers-price a span'')
                       (price_cell page)) (\<lambda>price_el.
            io_bind (case price_el of
                       None \<Rightarrow> io_return None
                     | Some content \<Rightarrow>
                         io_bind (io_call
                                    (TextContent
                                       ''table#offerTable tbody tr:nth-child(1) td.offers-price a span'')
                                    content)
                           (\<lambda>t. io_return (Some (strip (or_empty t))))) (\<lambda>price_text.
            io_bind (io_pure (parse_price_text price_text)) (\<lambda>price.
            io_bind (io_call
                       (QuerySelector
                          ''table#offerTable tbody tr:nth-child(1) td.offers-merchant a'')
                       (merchant_cell page)) (\<lambda>merchant_el.
            io_bind (case merchant_el of
                       None \<Rightarrow> io_return (ascii ''N/A'')
                     | Some content \<Rightarrow>
                         io_bind (io_call
                                    (TextContent
                                       ''table#offerTable tbody tr:nth-child(1) td.offers-merchant a'')
                                    content)
                           (\<lambda>t. io_return (strip (or_empty t)))) (\<lambda>merchant.
            io_return (price, Some merchant)))))))"

subsection \<open>The quote of one game\<close>

text \<open>
  \<^verbatim>\<open>
  def get_goclecd_price(game_name):
      search_url = f"https://www.goclecd.fr/produits/?search_name={game_name.replace(' ', '+')}"

      with sync_playwright() as p:
          browser = p.chromium.launch(headless=True)
          page = browser.new_page()
          page.goto(search_url)
          page.wait_for_load_state("domcontentloaded")
          accept_cookies_if_present(page)
          page.wait_for_load_state("networkidle")

          first_link_locator = page.locator("//div[contains(@class,'grid-view')]//div[1]/a")
          try:
              first_link_locator.wait_for(state="attached", timeout=10000)
          except Exception:
              page.wait_for_timeout(1500)
          count = first_link_locator.count()
          if count == 0:
              browser.close()
              return None

          product_url = first_link_locator.first.get_attribute("href")
          if not product_url:
              browser.close()
              return None

          page.goto(product_url)
          page.wait_for_load_state("domcontentloaded")
          accept_cookies_if_present(page)
          page.wait_for_load_state("networkidle")

          price, merchant = extract_first_offer(page)

          result = {
              "price": price,
              "currency": "EUR",
              "merchant": merchant if merchant else "N/A",
              "url": product_url
          }

          browser.close()
          return result
  \<close>
  Making a locator calls nothing. Of the three places that close the browser a run reaches
  at most one, so one outcome stands for the three.
\<close>

record quote_world =
  enter_playwright :: "error + unit"
  launch :: "error + unit"
  new_page :: "error + unit"
  goto_search :: "error + unit"
  search_loaded :: "error + unit"
  search_cookies :: cookie_page
  search_idle :: "error + unit"
  link_wait :: "error + unit"
  link_pause :: "error + unit"
  link_count :: "error + nat"
  link_href :: "error + str option"
  goto_product :: "error + unit"
  product_loaded :: "error + unit"
  product_cookies :: cookie_page
  product_idle :: "error + unit"
  offer :: offer_page
  close :: "error + unit"

record quote =
  price :: "pyfloat option"
  currency :: str
  merchant :: str
  url :: str

definition first_link :: string where
  "first_link = ''//div[contains(@class,'grid-view')]//div[1]/a''"

definition get_goclecd_price :: "quote_world \<Rightarrow> str \<Rightarrow> quote option io" where
  "get_goclecd_price world game_name =
     (let search_url =
            ascii ''https://www.goclecd.fr/produits/?search_name='' @ replace_char 32 43 game_name
      in with_playwright (enter_playwright world)
           (io_bind (io_call Launch (launch world)) (\<lambda>_.
            io_bind (io_call NewPage (new_page world)) (\<lambda>_.
            io_bind (io_call (Goto search_url) (goto_search world)) (\<lambda>_.
            io_bind (io_call (WaitForLoadState ''domcontentloaded'') (search_loaded world)) (\<lambda>_.
            io_bind (accept_cookies_if_present (search_cookies world)) (\<lambda>_.
            io_bind (io_call (WaitForLoadState ''networkidle'') (search_idle world)) (\<lambda>_.
            io_bind (io_try
                       (io_call (LocatorWaitFor first_link ''attached'' 10000) (link_wait world))
                       (io_call (WaitForTimeout 1500) (link_pause world))) (\<lambda>_.
            io_bind (io_call (LocatorCount first_link) (link_count world)) (\<lambda>count.
              if count = 0 then
                io_bind (io_call BrowserClose (close world)) (\<lambda>_. io_return None)
              else
                io_bind (io_call (GetAttribute first_link ''href'') (link_href world))
                  (\<lambda>product_url.
                if or_empty product_url = [] then
                  io_bind (io_call BrowserClose (close world)) (\<lambda>_. io_return None)
                else
                  io_bind (io_call (Goto (or_empty product_url)) (goto_product world)) (\<lambda>_.
                  io_bind (io_call (WaitForLoadState ''domcontentloaded'')
                             (product_loaded world)) (\<lambda>_.
                  io_bind (accept_cookies_if_present (product_cookies world)) (\<lambda>_.
                  io_bind (io_call (WaitForLoadState ''networkidle'') (product_idle world)) (\<lambda>_.
                  io_bind (extract_first_offer (offer world)) (\<lambda>(price, merchant).
                    let result =
                          \<lparr>price = price, currency = ascii ''EUR'',
                           merchant = (if or_empty merchant = [] then ascii ''N/A''
                                       else or_empty merchant),
                           url = or_empty product_url\<rparr>
                    in io_bind (io_call BrowserClose (close world))
                         (\<lambda>_. io_return (Some result))))))))))))))))))"

subsection \<open>What the calls do to the browser\<close>

text \<open>
  The calls that matter for the session: entering the manager starts the Playwright
  driver, \<^verbatim>\<open>launch\<close> opens a browser, \<^verbatim>\<open>browser.close()\<close> closes it when it returns,
  and the manager's exit stops the driver and, with it, a browser that is still open. A
  release is counted each time an open browser becomes closed.
\<close>

record resources =
  driver_running :: bool
  browser_open :: bool
  releases :: nat

definition idle :: resources where
  "idle = \<lparr>driver_running = False, browser_open = False, releases = 0\<rparr>"

definition release :: "resources \<Rightarrow> resources" where
  "release r =
     (if browser_open r then r\<lparr>browser_open := False, releases := Suc (releases r)\<rparr> else r)"

fun step :: "resources \<Rightarrow> event \<Rightarrow> resources" where
  "step r (SyncPlaywrightEnter, ok) = (if ok then r\<lparr>driver_running := True\<rparr> else r)"
| "step r (Launch, ok) = (if ok then r\<lparr>browser_open := True\<rparr> else r)"
| "step r (BrowserClose, ok) = (if ok then release r else r)"
| "step r (SyncPlaywrightExit, ok) = (release r)\<lparr>driver_running := False\<rparr>"
| "step r (c, ok) = r"

definition session_call :: "call \<Rightarrow> bool" where
  \<comment> \<open>the calls that change the resources\<close>
  "session_call c \<longleftrightarrow>
     c = SyncPlaywrightEnter \<or> c = SyncPlaywrightExit \<or> c = Launch \<or> c = BrowserClose"

definition quiet :: "event list \<Rightarrow> bool" where
  "quiet trace \<longleftrightarrow> list_all (\<lambda>e. \<not> session_call (fst e)) trace"

definition tidy :: "event list \<Rightarrow> bool" where
  \<comment> \<open>no call that changes the resources, except that the last may close the browser\<close>
  "tidy trace \<longleftrightarrow>
     quiet (butlast trace) \<and>
     (trace = [] \<or> fst (last trace) = BrowserClose \<or> \<not> session_call (fst (last trace)))"

definition after :: "event list \<Rightarrow> resources" where
  \<comment> \<open>the resources after a run that started with nothing open\<close>
  "after trace = foldl step idle trace"

definition closes :: "event list \<Rightarrow> nat" where
  \<comment> \<open>how many times the run called \<^verbatim>\<open>browser.close()\<close>\<close>
  "closes trace = length (filter (\<lambda>e. fst e = BrowserClose) trace)"

definition exits :: "event list \<Rightarrow> nat" where
  \<comment> \<open>how many times the run left the manager\<close>
  "exits trace = length (filter (\<lambda>e. fst e = SyncPlaywrightExit) trace)"

section \<open>The comparison\<close>

text \<open>
  \<^verbatim>\<open>
  def compare_prices_to_excel(games, output_file="comparaison_prix.xlsx"):
      results = []
      for app_id, name in games:
          print(...)
          steam_price = get_steam_price(app_id)
          goclecd_data = get_goclecd_price(name)
          goclecd_price = goclecd_data["price"] if goclecd_data else None
          merchant = goclecd_data["merchant"] if goclecd_data else "N/A"
          goclecd_url = goclecd_data["url"] if goclecd_data else ""

          savings_eur, savings_pct = calculate_savings(steam_price, goclecd_price)

          results.append({
              "Jeu": name,
              "Steam ID": app_id,
              "Prix Steam": steam_price if steam_price is not None else None,
              "Prix GoCleCD": goclecd_price if goclecd_price is not None else None,
              "Marchand": merchant,
              "Economie (EUR)": round(savings_eur, 2) if isinstance(savings_eur, (int, float)) else None,
              "Economie (%)": round(savings_pct, 2) if isinstance(savings_pct, (int, float)) else None,
              "Lien GoCleCD": goclecd_url
          })
          ...
          time.sleep(0.4)

      df = pd.DataFrame(results)
      df_sorted = df.sort_values(by="Economie (%)", ascending=False, na_position='last')
      df_sorted.to_excel(output_file, index=False)
  \<close>
  The loop has no \<^verbatim>\<open>try\<close>. The function below returns the list \<^verbatim>\<open>results\<close> that the loop
  hands to the data frame; the printing, the sleep, and the frame's sort and write are
  left out. The world answers the \<open>i\<close>-th turn of the loop with the outcome of the Steam
  request and the outcomes of the browser calls.
\<close>

definition py_round2 :: "pyfloat \<Rightarrow> pyfloat" where
  \<comment> \<open>\<^verbatim>\<open>round(x, 2)\<close>: the float nearest to the nearest multiple of 0.01, ties to the
      even one; an infinity or a NaN is returned as it is\<close>
  "py_round2 x =
     (case x of
        Finite a \<Rightarrow> round_float (of_int (nearest_even (a * 100)) / 100)
      | _ \<Rightarrow> x)"

record row =
  jeu :: str
  steam_id :: int
  prix_steam :: "pyfloat option"
  prix_goclecd :: "pyfloat option"
  marchand :: str
  economie_eur :: "pyfloat option"
  economie_pct :: "pyfloat option"
  lien_goclecd :: str

record turn =
  steam_response :: http_outcome
  browser :: quote_world

fun compare_loop :: "(nat \<Rightarrow> turn) \<Rightarrow> nat \<Rightarrow> (int \<times> str) list \<Rightarrow> row list \<Rightarrow> row list io" where
  "compare_loop world i [] results = io_return results"
| "compare_loop world i ((app_id, name) # games) results =
     (let steam_price = get_steam_price (steam_response (world i)) app_id
      in io_bind (get_goclecd_price (browser (world i)) name) (\<lambda>goclecd_data.
           let goclecd_price = (case goclecd_data of None \<Rightarrow> None | Some q \<Rightarrow> price q);
               merchant = (case goclecd_data of None \<Rightarrow> ascii ''N/A'' | Some q \<Rightarrow> merchant q);
               goclecd_url = (case goclecd_data of None \<Rightarrow> [] | Some q \<Rightarrow> url q)
           in io_bind (io_pure (calculate_savings steam_price goclecd_price))
                (\<lambda>(savings_eur, savings_pct).
                   compare_loop world (Suc i) games
                     (results @
                      [\<lparr>jeu = name, steam_id = app_id, prix_steam = steam_price,
                        prix_goclecd = goclecd_price, marchand = merchant,
                        economie_eur = map_option py_round2 savings_eur,
                        economie_pct = map_option py_round2 savings_pct,
                        lien_goclecd = goclecd_url\<rparr>]))))"

definition compare_prices_to_excel :: "(nat \<Rightarrow> turn) \<Rightarrow> (int \<times> str) list \<Rightarrow> row list io" where
  "compare_prices_to_excel world games = compare_loop world 0 games []"

subsection \<open>Sample pages\<close>

text \<open>
  A page on which every call returns: one search result, leading to a product page whose
  first offer is \<^verbatim>\<open>9,99\<close> euros at a named merchant; no cookie banner.
\<close>

definition ready :: waiter_page where
  "ready = \<lparr>table_attached = Inr (), row_attached = Inr (), scrolled = Inr (),
            price_visible = Inr ()\<rparr>"

definition never_ready :: waiter_page where
  "never_ready = \<lparr>table_attached = Inl TimeoutError, row_attached = Inr (), scrolled = Inr (),
                  price_visible = Inr ()\<rparr>"

definition no_banner :: cookie_page where
  "no_banner = (\<lambda>sel. Inr None)"

definition offer_shown :: offer_page where
  "offer_shown =
     \<lparr>first_wait = ready, pause = Inr (), second_wait = ready,
      price_cell = Inr (Some (Inr (Some (ascii '' 9,99 '' @ [8364])))),
      merchant_cell = Inr (Some (Inr (Some (ascii ''Kinguin''))))\<rparr>"

definition calm :: quote_world where
  "calm =
     \<lparr>enter_playwright = Inr (), launch = Inr (), new_page = Inr (), goto_search = Inr (),
      search_loaded = Inr (), search_cookies = no_banner, search_idle = Inr (),
      link_wait = Inr (), link_pause = Inr (), link_count = Inr 1,
      link_href = Inr (Some (ascii ''https://www.goclecd.fr/acheter-dota-2/'')),
      goto_product = Inr (), product_loaded = Inr (), product_cookies = no_banner,
      product_idle = Inr (), offer = offer_shown, close = Inr ()\<rparr>"


section \<open>Facts about the value model\<close>

lemma digit_value_ascii: "48 \<le> c \<Longrightarrow> c \<le> 57 \<Longrightarrow> digit_value c = Some (c - 48)"
  by (simp add: digit_value_def nd_zeros_def)

lemma digit_value_low: "c < 48 \<Longrightarrow> digit_value c = None"
  by (simp add: digit_value_def nd_zeros_def)

lemma digit_value_euro: "digit_value 8364 = None"
  by (simp add: digit_value_def nd_zeros_def)

lemma space_not_digit: "is_space c \<Longrightarrow> digit_value c = None"
  unfolding is_space_def digit_value_def nd_zeros_def
  by (elim disjE conjE) simp_all

lemma pow2_pos: "0 < pow2 e"
  by (simp add: pow2_def)

lemma nearest_even_nonneg: "0 \<le> n \<Longrightarrow> 0 \<le> nearest_even n"
  by (simp add: nearest_even_def Let_def)

lemma rnd_nonneg: "0 \<le> x \<Longrightarrow> 0 \<le> rnd x"
proof -
  assume x: "0 \<le> x"
  have u: "0 < ulp x" by (simp add: ulp_def pow2_pos)
  from x u have "0 \<le> x / ulp x" by simp
  then have "0 \<le> nearest_even (x / ulp x)" by (rule nearest_even_nonneg)
  with u show ?thesis by (simp add: rnd_def)
qed

lemma digit_not_space: "is_digit c \<Longrightarrow> \<not> is_space c"
  using space_not_digit [of c] by (auto simp: is_digit_def)

lemma period_not_digit: "\<not> is_digit period"
  by (simp add: is_digit_def digit_value_low)

lemma comma_not_digit: "\<not> is_digit comma"
  by (simp add: is_digit_def digit_value_low)

lemma strip_keeps_prefix:
  assumes "p \<noteq> []" "\<not> is_space (hd p)" "\<not> is_space (last p)"
  shows "\<exists>r'. strip (p @ r) = p @ r'"
proof -
  from assms(1,2) have a: "dropWhile is_space (p @ r) = p @ r" by (cases p) auto
  from assms(1,3) have b: "dropWhile is_space (rev p) = rev p"
    by (cases "rev p") (auto simp: last_rev [symmetric] simp del: last_rev)
  have "dropWhile is_space (rev r @ rev p) =
        (if \<forall>x\<in>set (rev r). is_space x then dropWhile is_space (rev p)
         else dropWhile is_space (rev r) @ rev p)"
    by (rule dropWhile_append)
  then have "\<exists>q. dropWhile is_space (rev r @ rev p) = q @ rev p"
    using b by (cases "\<forall>x\<in>set (rev r). is_space x") auto
  then obtain q where "dropWhile is_space (rev (p @ r)) = q @ rev p" by auto
  then have "strip (p @ r) = p @ rev q" by (simp add: strip_def a)
  then show ?thesis ..
qed

lemma search_price_alt:
  "search_price s =
     (if dropWhile (\<lambda>c. \<not> is_digit c) s = [] then None
      else Some (takeWhile is_digit (dropWhile (\<lambda>c. \<not> is_digit c) s) @
                 fraction (dropWhile is_digit (dropWhile (\<lambda>c. \<not> is_digit c) s))))"
  unfolding search_price_def
  by (cases "dropWhile (\<lambda>c. \<not> is_digit c) s") (simp_all del: dropWhile_eq_Nil_conv)

section \<open>The pattern search\<close>

lemma fraction_prefix: "\<exists>post. r = fraction r @ post"
  by (induction r rule: fraction.induct) auto

lemma fraction_shape:
  "fraction r = [] \<or> (\<exists>ds. fraction r = period # ds \<and> (length ds = 1 \<or> length ds = 2) \<and>
     list_all is_digit ds)"
  by (induction r rule: fraction.induct) auto

lemma fraction_longest:
  "list_all is_digit ds \<Longrightarrow> length ds = 1 \<or> length ds = 2 \<Longrightarrow>
   Suc (length ds) \<le> length (fraction (period # ds @ post))"
proof -
  assume d: "list_all is_digit ds" and l: "length ds = 1 \<or> length ds = 2"
  from l show ?thesis
  proof
    assume "length ds = 1"
    then obtain d1 where ds: "ds = [d1]" by (cases ds) auto
    with d show ?thesis by (cases post) auto
  next
    assume "length ds = 2"
    then obtain d1 d2 where ds: "ds = [d1, d2]"
      by (cases ds; cases "tl ds") auto
    with d show ?thesis by auto
  qed
qed

lemma search_price_None:
  assumes "search_price s = None"
  shows "\<not> (\<exists>j m. occurs_at s j m \<and> price_shaped m)"
proof
  assume "\<exists>j m. occurs_at s j m \<and> price_shaped m"
  then obtain j m where o: "occurs_at s j m" and p: "price_shaped m" by blast
  from assms have "dropWhile (\<lambda>c. \<not> is_digit c) s = []"
    by (simp add: search_price_def split: list.splits)
  then have nod: "\<forall>c\<in>set s. \<not> is_digit c" by (simp add: dropWhile_eq_Nil_conv)
  from p obtain ip fp where m: "m = ip @ fp" and ne: "ip \<noteq> []" and dg: "list_all is_digit ip"
    by (auto simp: price_shaped_def)
  from ne dg have hd: "is_digit (hd ip)" by (cases ip) auto
  from o obtain post where "drop j s = m @ post" by (auto simp: occurs_at_def)
  with m ne have "hd ip \<in> set (drop j s)" by (cases ip) auto
  then have "hd ip \<in> set s" by (rule in_set_dropD)
  with nod hd show False by blast
qed

lemma search_price_Some:
  assumes "search_price s = Some m"
  shows "first_price_match s m"
proof -
  let ?nd = "\<lambda>c. \<not> is_digit c"
  define pre where "pre = takeWhile ?nd s"
  define t where "t = dropWhile ?nd s"
  define ip where "ip = takeWhile is_digit t"
  define rest where "rest = dropWhile is_digit t"
  have s: "s = pre @ t" by (simp add: pre_def t_def)
  have t: "t = ip @ rest" by (simp add: ip_def rest_def)
  from assms have tne: "t \<noteq> []"
    unfolding t_def
    by (auto simp: search_price_def simp del: dropWhile_eq_Nil_conv split: list.splits)
  from assms have m: "m = ip @ fraction rest"
    by (auto simp: search_price_def t_def ip_def rest_def split: list.splits)
  from tne have "\<not> ?nd (hd t)" unfolding t_def by (rule hd_dropWhile)
  then have hdt: "is_digit (hd t)" by simp
  with tne have ipne: "ip \<noteq> []" unfolding ip_def by (cases t) auto
  have ipd: "list_all is_digit ip"
    unfolding ip_def list_all_iff by (auto dest: set_takeWhileD)
  obtain post where post: "rest = fraction rest @ post" using fraction_prefix by blast
  have dropi: "drop (length pre) s = t" by (simp add: s)
  have occ: "occurs_at s (length pre) m"
    unfolding occurs_at_def
  proof
    have "t = ip @ rest" by (rule t)
    also have "\<dots> = ip @ (fraction rest @ post)"
      by (rule arg_cong [where f = "(@) ip", OF post])
    also have "\<dots> = m @ post" by (simp add: m)
    finally have "drop (length pre) s = m @ post" by (simp add: dropi)
    then show "\<exists>post. drop (length pre) s = m @ post" ..
    show "length pre \<le> length s" by (simp add: s)
  qed
  have shaped: "price_shaped m"
    unfolding price_shaped_def using m ipne ipd fraction_shape [of rest] by blast
  have best: "length pre < j \<or> (length pre = j \<and> length m' \<le> length m)"
    if o: "occurs_at s j m'" and p: "price_shaped m'" for j m'
  proof -
    from p obtain ip' fp' where m': "m' = ip' @ fp'" and ne': "ip' \<noteq> []"
      and dg': "list_all is_digit ip'"
      and fp': "fp' = [] \<or> (\<exists>ds. fp' = period # ds \<and> (length ds = 1 \<or> length ds = 2) \<and>
                 list_all is_digit ds)"
      by (auto simp: price_shaped_def)
    from o obtain post' where dj: "drop j s = m' @ post'" and jl: "j \<le> length s"
      by (auto simp: occurs_at_def)
    from ne' dg' have hd': "is_digit (hd ip')" by (cases ip') auto
    from dj m' ne' have jlt: "j < length s" by (cases "j < length s") auto
    from dj m' ne' have "hd (drop j s) = hd ip'" by (cases ip') simp_all
    with hd_drop_conv_nth [OF jlt] have sj: "s ! j = hd ip'" by simp
    have ge: "length pre \<le> j"
    proof (rule ccontr)
      assume "\<not> length pre \<le> j"
      then have lt: "j < length pre" by simp
      then have "s ! j = pre ! j" by (simp add: s nth_append)
      with lt have "s ! j \<in> set pre" by simp
      then have "\<not> is_digit (s ! j)" unfolding pre_def by (auto dest: set_takeWhileD)
      with sj hd' show False by simp
    qed
    show ?thesis
    proof (cases "length pre = j")
      case False
      with ge show ?thesis by simp
    next
      case True
      with dj dropi have tt: "t = ip' @ fp' @ post'" by (simp add: m')
      have le: "length m' \<le> length m"
      proof (cases "fp' = []")
        case True
        have "takeWhile is_digit t = ip' @ takeWhile is_digit (fp' @ post')"
          unfolding tt using dg' by (simp add: list_all_iff takeWhile_append2)
        then have "length ip' \<le> length ip" by (simp add: ip_def)
        with True show ?thesis by (simp add: m m')
      next
        case False
        with fp' obtain ds where f: "fp' = period # ds"
          and l: "length ds = 1 \<or> length ds = 2" and d: "list_all is_digit ds" by blast
        have np: "\<not> is_digit period"
          by (simp add: is_digit_def digit_value_def nd_zeros_def)
        have tk: "takeWhile is_digit t = ip'"
          unfolding tt f using dg' np by (simp add: list_all_iff takeWhile_append2)
        have dr: "dropWhile is_digit t = period # ds @ post'"
          unfolding tt f using dg' np by (simp add: list_all_iff dropWhile_append2)
        from fraction_longest [OF d l, of post'] dr
        have "Suc (length ds) \<le> length (fraction rest)" by (simp add: rest_def)
        with tk f show ?thesis by (simp add: m m' ip_def)
      qed
      with True show ?thesis by simp
    qed
  qed
  show ?thesis unfolding first_price_match_def using occ shaped best by blast
qed

lemma first_price_match_unique:
  assumes "first_price_match s m" "first_price_match s m'"
  shows "m = m'"
proof -
  from assms(1) obtain i where i: "occurs_at s i m" "price_shaped m"
    and bi: "\<And>j n. occurs_at s j n \<Longrightarrow> price_shaped n \<Longrightarrow> i < j \<or> (i = j \<and> length n \<le> length m)"
    unfolding first_price_match_def by blast
  from assms(2) obtain j where j: "occurs_at s j m'" "price_shaped m'"
    and bj: "\<And>k n. occurs_at s k n \<Longrightarrow> price_shaped n \<Longrightarrow> j < k \<or> (j = k \<and> length n \<le> length m')"
    unfolding first_price_match_def by blast
  from bi [OF j] bj [OF i] have ij: "i = j" and len: "length m = length m'" by auto
  from i(1) obtain post where "drop i s = m @ post" by (auto simp: occurs_at_def)
  moreover from j(1) ij obtain post' where "drop i s = m' @ post'" by (auto simp: occurs_at_def)
  ultimately have "m @ post = m' @ post'" by simp
  with len show ?thesis by simp
qed


section \<open>Reading a price-shaped text as a float\<close>

lemma nd_zero_low: "z \<in> set nd_zeros \<Longrightarrow> z < 128 \<Longrightarrow> z = 48"
  by (auto simp: nd_zeros_def)

lemma digit_value_find:
  assumes "digit_value c = Some d"
  obtains z where "z \<in> set nd_zeros" "z \<le> c" "c < z + 10" "d = c - z"
proof -
  from assms obtain z where f: "find (\<lambda>z. z \<le> c \<and> c < z + 10) nd_zeros = Some z" and d: "d = c - z"
    by (auto simp: digit_value_def)
  from f have "z \<in> set nd_zeros" "z \<le> c \<and> c < z + 10"
    by (auto simp: find_Some_iff)
  with d that show ?thesis by blast
qed

lemma digit_value_lt10: "digit_value c = Some d \<Longrightarrow> d < 10"
  by (erule digit_value_find) simp

lemma ascii_digit_is_digit: "ascii_digit c \<Longrightarrow> digit_value c = Some (c - 48)"
  by (simp add: ascii_digit_def digit_value_ascii)

lemma digit_low_ascii: "is_digit c \<Longrightarrow> c < 128 \<Longrightarrow> ascii_digit c"
proof -
  assume "is_digit c" and c: "c < 128"
  then obtain d where "digit_value c = Some d" by (auto simp: is_digit_def)
  then obtain z where z: "z \<in> set nd_zeros" "z \<le> c" "c < z + 10" by (rule digit_value_find)
  with c have "z = 48" by (intro nd_zero_low) simp_all
  with z show ?thesis by (simp add: ascii_digit_def)
qed

lemma to_ascii_digit:
  assumes "is_digit c"
  shows "ascii_digit (to_ascii c)" and "digit_value (to_ascii c) = digit_value c"
proof -
  from assms obtain d where d: "digit_value c = Some d" by (auto simp: is_digit_def)
  then have d10: "d < 10" by (rule digit_value_lt10)
  from assms have ns: "\<not> is_space c" by (rule digit_not_space)
  show "ascii_digit (to_ascii c)"
  proof (cases "c < 128")
    case True
    with assms show ?thesis by (simp add: to_ascii_def digit_low_ascii)
  next
    case False
    with ns d d10 show ?thesis by (simp add: to_ascii_def ascii_digit_def)
  qed
  show "digit_value (to_ascii c) = digit_value c"
  proof (cases "c < 128")
    case True
    then show ?thesis by (simp add: to_ascii_def)
  next
    case False
    with ns d d10 show ?thesis by (simp add: to_ascii_def digit_value_ascii)
  qed
qed

lemma decimal_nat_to_ascii:
  "list_all is_digit ds \<Longrightarrow> decimal_nat acc (map to_ascii ds) = decimal_nat acc ds"
  by (induction ds arbitrary: acc) (simp_all add: to_ascii_digit)

lemma decimal_nat_append: "decimal_nat acc (xs @ ys) = decimal_nat (decimal_nat acc xs) ys"
  by (induction xs arbitrary: acc) simp_all

lemma decimal_nat_acc: "decimal_nat acc ys = acc * 10 ^ length ys + decimal_nat 0 ys"
proof (induction ys arbitrary: acc)
  case Nil
  show ?case by simp
next
  case (Cons c cs)
  let ?d = "case digit_value c of Some d \<Rightarrow> d | None \<Rightarrow> 0"
  have "decimal_nat acc (c # cs) = (10 * acc + ?d) * 10 ^ length cs + decimal_nat 0 cs"
    using Cons.IH [of "10 * acc + ?d"] by simp
  also have "\<dots> = acc * 10 ^ length (c # cs) + (?d * 10 ^ length cs + decimal_nat 0 cs)"
    by (simp add: algebra_simps)
  also have "?d * 10 ^ length cs + decimal_nat 0 cs = decimal_nat 0 (c # cs)"
    using Cons.IH [of ?d] by simp
  finally show ?case .
qed

lemma underscores_none: "95 \<notin> set t \<Longrightarrow> prev \<noteq> 95 \<Longrightarrow> underscores prev t = Some t"
  by (induction t arbitrary: prev) auto

lemma strip_ascii_id:
  assumes "t \<noteq> []" "\<not> ascii_space (hd t)" "\<not> ascii_space (last t)"
  shows "strip_ascii t = t"
proof -
  from assms(1,2) have a: "dropWhile ascii_space t = t" by (cases t) auto
  from assms(1,3) have b: "dropWhile ascii_space (rev t) = rev t"
    by (cases "rev t") (auto simp: last_rev [symmetric] simp del: last_rev)
  show ?thesis by (simp add: strip_ascii_def a b)
qed

lemma ascii_digit_facts:
  assumes "ascii_digit c"
  shows "c \<noteq> 45" "c \<noteq> 43" "c \<noteq> 95" "c \<noteq> period" "lower c = c" "\<not> ascii_space c"
    "c \<noteq> 105" "c \<noteq> 110"
  using assms by (simp_all add: ascii_digit_def lower_def ascii_space_def)

lemma float_literal_decimal:
  assumes ne: "ip \<noteq> []" and ipd: "list_all ascii_digit ip" and dsd: "list_all ascii_digit ds"
    and fp: "fp = [] \<and> ds = [] \<or> fp = period # ds"
  shows "float_literal (ip @ fp) =
         Inr (round_float (of_nat (decimal_nat 0 (ip @ ds)) / 10 ^ length ds))"
proof -
  define t where "t = ip @ fp"
  from ne obtain c cs where ip: "ip = c # cs" by (cases ip) auto
  with ipd have c: "ascii_digit c" by simp
  have sg: "split_sign t = (False, t)"
    using ascii_digit_facts(1,2) [OF c] by (simp add: split_sign_def ip t_def)
  have w: "map lower t \<noteq> [105, 110, 102]"
    "map lower t \<noteq> [105, 110, 102, 105, 110, 105, 116, 121]"
    "map lower t \<noteq> [110, 97, 110]"
    using ascii_digit_facts(5,7,8) [OF c] by (auto simp: ip t_def)
  from ipd have all: "\<forall>x\<in>set ip. ascii_digit x" by (simp add: list_all_iff)
  from dsd have alld: "\<forall>x\<in>set ds. ascii_digit x" by (simp add: list_all_iff)
  have np: "\<not> ascii_digit period" by (simp add: ascii_digit_def)
  have tk: "takeWhile ascii_digit t = ip"
    unfolding t_def using fp all np by (auto simp: takeWhile_append2)
  have dr: "dropWhile ascii_digit t = fp"
    unfolding t_def using fp all np by (auto simp: dropWhile_append2)
  have tkd: "takeWhile ascii_digit ds = ds" using alld by (simp add: takeWhile_eq_all_conv)
  have drd: "dropWhile ascii_digit ds = []" using alld by simp
  have sc: "scale10 x (- int (length ds)) = x / 10 ^ length ds" for x
    by (simp add: scale10_def)
  have "float_literal t =
        Inr (round_float (of_nat (decimal_nat 0 (ip @ ds)) / 10 ^ length ds))"
    using fp
  proof
    assume "fp = [] \<and> ds = []"
    then show ?thesis
      using w ne by (simp add: float_literal_def sg tk dr exponent_def scale10_def)
  next
    assume f: "fp = period # ds"
    show ?thesis
      using w ne by (simp add: float_literal_def sg tk dr f tkd drd exponent_def sc)
  qed
  then show ?thesis by (simp only: t_def)
qed

lemma price_shaped_parts:
  assumes "price_shaped m"
  obtains ip fp ds where "m = ip @ fp" "ip \<noteq> []" "list_all is_digit ip" "list_all is_digit ds"
    "fp = [] \<and> ds = [] \<or> fp = period # ds" "length ds \<le> 2"
proof -
  from assms obtain ip fp where m: "m = ip @ fp" and ne: "ip \<noteq> []"
    and ipd: "list_all is_digit ip"
    and fp: "fp = [] \<or> (\<exists>ds. fp = period # ds \<and> (length ds = 1 \<or> length ds = 2) \<and>
                           list_all is_digit ds)"
    unfolding price_shaped_def by blast
  from fp show ?thesis
  proof
    assume "fp = []"
    with m ne ipd that [of ip fp "[]"] show ?thesis by simp
  next
    assume "\<exists>ds. fp = period # ds \<and> (length ds = 1 \<or> length ds = 2) \<and> list_all is_digit ds"
    then obtain ds where "fp = period # ds" "length ds = 1 \<or> length ds = 2" "list_all is_digit ds"
      by blast
    with m ne ipd that [of ip fp ds] show ?thesis by auto
  qed
qed

lemma decimal_value_parts:
  assumes ipd: "list_all is_digit ip" and fp: "fp = [] \<and> ds = [] \<or> fp = period # ds"
  shows "decimal_value (ip @ fp) =
         of_nat (decimal_nat 0 ip) + of_nat (decimal_nat 0 ds) / 10 ^ length ds"
proof -
  from ipd have all: "\<forall>x\<in>set ip. is_digit x" by (simp add: list_all_iff)
  have tk: "takeWhile is_digit (ip @ fp) = ip"
    using fp all period_not_digit by (auto simp: takeWhile_append2)
  from fp have dr: "drop (Suc (length ip)) (ip @ fp) = ds" by auto
  show ?thesis by (simp only: decimal_value_def Let_def tk dr)
qed

lemma float_of_str_price_shaped:
  assumes "price_shaped m"
  shows "float_of_str m = Inr (round_float (decimal_value m))"
proof -
  from assms obtain ip fp ds where m: "m = ip @ fp" and ne: "ip \<noteq> []"
    and ipd: "list_all is_digit ip" and dsd: "list_all is_digit ds"
    and fp: "fp = [] \<and> ds = [] \<or> fp = period # ds"
    by (rule price_shaped_parts)
  define ip' where "ip' = map to_ascii ip"
  define ds' where "ds' = map to_ascii ds"
  define fp' where "fp' = map to_ascii fp"
  define t where "t = ip' @ fp'"
  have pa: "to_ascii period = period" by (simp add: to_ascii_def)
  have ipa: "list_all ascii_digit ip'"
    unfolding ip'_def using ipd by (simp add: list_all_iff to_ascii_digit)
  have dsa: "list_all ascii_digit ds'"
    unfolding ds'_def using dsd by (simp add: list_all_iff to_ascii_digit)
  have fpa: "fp' = [] \<and> ds' = [] \<or> fp' = period # ds'"
    unfolding fp'_def ds'_def using fp pa by auto
  have ne': "ip' \<noteq> []" unfolding ip'_def using ne by simp
  have tne: "t \<noteq> []" unfolding t_def using ne' by simp
  have members: "\<forall>x\<in>set t. ascii_digit x \<or> x = period"
    unfolding t_def using ipa dsa fpa by (auto simp: list_all_iff)
  have nosp: "\<not> ascii_space x" if "x \<in> set t" for x
    using members that by (auto simp: ascii_digit_def ascii_space_def)
  have nous: "95 \<notin> set t"
    using members by (auto simp: ascii_digit_def)
  from tne have "hd t \<in> set t" "last t \<in> set t" by simp_all
  then have "\<not> ascii_space (hd t)" "\<not> ascii_space (last t)" by (simp_all add: nosp)
  with tne have st: "strip_ascii t = t" by (intro strip_ascii_id)
  from nous have us: "underscores 0 t = Some t" by (intro underscores_none) simp_all
  have mt: "map to_ascii m = t" by (simp add: m t_def ip'_def fp'_def)
  have "float_of_str m = float_literal t"
    by (simp only: float_of_str_def mt st us option.case)
  also have "\<dots> = Inr (round_float (of_nat (decimal_nat 0 (ip' @ ds')) / 10 ^ length ds'))"
    unfolding t_def by (rule float_literal_decimal [OF ne' ipa dsa fpa])
  also have "decimal_nat 0 (ip' @ ds') = decimal_nat 0 ip * 10 ^ length ds + decimal_nat 0 ds"
    unfolding ip'_def ds'_def
    by (simp add: decimal_nat_append decimal_nat_to_ascii ipd dsd
          decimal_nat_acc [of "decimal_nat 0 ip"])
  also have "of_nat (decimal_nat 0 ip * 10 ^ length ds + decimal_nat 0 ds) / 10 ^ length ds'
             = decimal_value m"
    by (simp add: m decimal_value_parts [OF ipd fp] add_divide_distrib ds'_def)
  finally show ?thesis .
qed

lemma decimal_value_nonneg: "0 \<le> decimal_value s"
  by (simp add: decimal_value_def Let_def)

lemma round_float_nonneg: "0 \<le> x \<Longrightarrow> nonnegative (round_float x)"
proof -
  assume "0 \<le> x"
  then have "0 \<le> rnd x" by (rule rnd_nonneg)
  then show ?thesis by (simp add: round_float_def)
qed


section \<open>The cleaned text and the normalized text\<close>

lemma fraction_append_spaces:
  assumes "\<forall>x\<in>set c. is_space x"
  shows "fraction (r @ c) = fraction r"
proof (cases c)
  case Nil
  then show ?thesis by simp
next
  case (Cons s c')
  with assms have sp: "is_space s" by simp
  then have nd: "\<not> is_digit s" using digit_not_space by blast
  from sp have np: "s \<noteq> period" by (auto simp: is_space_def)
  show ?thesis
  proof (cases r)
    case Nil
    with Cons np show ?thesis by (cases c'; cases "tl c'") auto
  next
    case r1: (Cons a r')
    show ?thesis
    proof (cases r')
      case Nil
      with r1 Cons nd show ?thesis by (cases c') auto
    next
      case r2: (Cons b r'')
      show ?thesis
      proof (cases r'')
        case Nil
        with r1 r2 Cons nd show ?thesis by auto
      next
        case (Cons d r''')
        with r1 r2 show ?thesis by auto
      qed
    qed
  qed
qed

lemma search_price_append_spaces:
  assumes sp: "\<forall>x\<in>set c. is_space x"
  shows "search_price (s @ c) = search_price s"
proof -
  let ?nd = "\<lambda>c. \<not> is_digit c"
  from sp have ndc: "\<forall>x\<in>set c. \<not> is_digit x" using digit_not_space by blast
  show ?thesis
  proof (cases "\<forall>x\<in>set s. \<not> is_digit x")
    case True
    with ndc have "dropWhile ?nd (s @ c) = []" "dropWhile ?nd s = []" by auto
    then show ?thesis by (simp add: search_price_alt)
  next
    case False
    define t where "t = dropWhile ?nd s"
    from False have dw: "dropWhile ?nd (s @ c) = t @ c"
      unfolding t_def by (auto simp: dropWhile_append)
    from False have tne: "t \<noteq> []" unfolding t_def by auto
    have tk: "takeWhile is_digit (t @ c) = takeWhile is_digit t"
    proof (cases "\<forall>x\<in>set t. is_digit x")
      case True
      then have a: "takeWhile is_digit t = t" by (simp add: takeWhile_eq_all_conv)
      have b: "takeWhile is_digit c = []" using ndc by (cases c) auto
      from True have "takeWhile is_digit (t @ c) = t @ takeWhile is_digit c"
        by (intro takeWhile_append2) simp
      then show ?thesis by (simp only: a b append_Nil2)
    next
      case False
      then show ?thesis by (auto simp: takeWhile_append)
    qed
    have dr: "dropWhile is_digit (t @ c) = dropWhile is_digit t @ c"
    proof (cases "\<forall>x\<in>set t. is_digit x")
      case True
      then have "dropWhile is_digit (t @ c) = dropWhile is_digit c"
        by (simp add: dropWhile_append2)
      also have "dropWhile is_digit c = c" using ndc by (cases c) auto
      finally show ?thesis using True by simp
    next
      case False
      then show ?thesis by (auto simp: dropWhile_append)
    qed
    show ?thesis
      unfolding search_price_alt dw tk dr fraction_append_spaces [OF sp] t_def [symmetric]
      using tne by simp
  qed
qed

lemma search_price_prepend_spaces:
  assumes sp: "\<forall>x\<in>set a. is_space x"
  shows "search_price (a @ s) = search_price s"
proof -
  from sp have "\<forall>x\<in>set a. \<not> is_digit x" using digit_not_space by blast
  then have "dropWhile (\<lambda>c. \<not> is_digit c) (a @ s) = dropWhile (\<lambda>c. \<not> is_digit c) s"
    by (simp add: dropWhile_append2)
  then show ?thesis by (simp only: search_price_def)
qed

lemma strip_decompose:
  obtains a c where "s = a @ strip s @ c" "\<forall>x\<in>set a. is_space x" "\<forall>x\<in>set c. is_space x"
proof -
  define a where "a = takeWhile is_space s"
  define g where "g = dropWhile is_space s"
  define c where "c = rev (takeWhile is_space (rev g))"
  have "strip s @ c = rev (takeWhile is_space (rev g) @ dropWhile is_space (rev g))"
    by (simp only: strip_def g_def c_def rev_append)
  also have "\<dots> = g" by (simp only: takeWhile_dropWhile_id rev_rev_ident)
  finally have g: "g = strip s @ c" by simp
  have "s = a @ g" by (simp add: a_def g_def)
  with g have 1: "s = a @ strip s @ c" by simp
  have 2: "\<forall>x\<in>set a. is_space x" unfolding a_def by (auto dest: set_takeWhileD)
  have 3: "\<forall>x\<in>set c. is_space x" unfolding c_def by (auto dest: set_takeWhileD)
  from 1 2 3 that show ?thesis by blast
qed

lemma replace_spaces:
  "\<forall>x\<in>set a. is_space x \<Longrightarrow> replace_char comma period a = a"
  unfolding replace_char_def by (rule map_idI) (auto simp: is_space_def)

lemma search_price_cleaned: "search_price (cleaned t) = search_price (normalized t)"
proof -
  define f where "f = filter keep_char t"
  obtain a c where f: "f = a @ strip f @ c"
    and a: "\<forall>x\<in>set a. is_space x" and c: "\<forall>x\<in>set c. is_space x"
    by (rule strip_decompose)
  have "normalized t = replace_char comma period f"
    by (simp add: normalized_def replace_char_def f_def keep_char_def [abs_def])
  also have "\<dots> = replace_char comma period (a @ strip f @ c)"
    by (rule arg_cong [OF f])
  also have "\<dots> = a @ replace_char comma period (strip f) @ c"
    using replace_spaces [OF a] replace_spaces [OF c] by (simp add: replace_char_def)
  finally have "search_price (normalized t) = search_price (replace_char comma period (strip f))"
    using a c
    by (simp add: search_price_prepend_spaces search_price_append_spaces
          del: append_assoc add: append_assoc [symmetric])
  then show ?thesis by (simp add: cleaned_def f_def)
qed


section \<open>The price-text parser\<close>

lemma first_price_match_shaped: "first_price_match s m \<Longrightarrow> price_shaped m"
  unfolding first_price_match_def by blast

lemma search_price_iff: "search_price s = Some m \<longleftrightarrow> first_price_match s m"
proof
  assume "search_price s = Some m"
  then show "first_price_match s m" by (rule search_price_Some)
next
  assume fm: "first_price_match s m"
  show "search_price s = Some m"
  proof (cases "search_price s")
    case None
    from search_price_None [OF None] fm show ?thesis unfolding first_price_match_def by blast
  next
    case (Some m')
    from search_price_Some [OF Some] fm have "m' = m" by (rule first_price_match_unique)
    with Some show ?thesis by simp
  qed
qed

lemma search_price_None_iff:
  "search_price s = None \<longleftrightarrow> \<not> (\<exists>i m. occurs_at s i m \<and> price_shaped m)"
proof
  assume "search_price s = None"
  then show "\<not> (\<exists>i m. occurs_at s i m \<and> price_shaped m)" by (rule search_price_None)
next
  assume no: "\<not> (\<exists>i m. occurs_at s i m \<and> price_shaped m)"
  show "search_price s = None"
  proof (cases "search_price s")
    case None
    then show ?thesis .
  next
    case (Some m)
    then have "first_price_match s m" by (rule search_price_Some)
    with no show ?thesis unfolding first_price_match_def by blast
  qed
qed

lemma normalized_Nil: "normalized [] = []"
  by (simp add: normalized_def)

lemma parse_value:
  "parse_price_text (Some t) =
   Inr (map_option (\<lambda>m. round_float (decimal_value m)) (search_price (normalized t)))"
proof (cases "t = []")
  case True
  then show ?thesis by (simp add: parse_price_text_def normalized_Nil search_price_def)
next
  case False
  show ?thesis
  proof (cases "search_price (normalized t)")
    case None
    with False show ?thesis by (simp add: parse_price_text_def search_price_cleaned)
  next
    case (Some m)
    then have "price_shaped m" by (intro first_price_match_shaped search_price_Some)
    then have "float_of_str m = Inr (round_float (decimal_value m))"
      by (rule float_of_str_price_shaped)
    with False Some show ?thesis
      by (simp add: parse_price_text_def search_price_cleaned then_do_def)
  qed
qed

lemma digit_value_latin: "57 < c \<Longrightarrow> c < 1632 \<Longrightarrow> digit_value c = None"
  by (simp add: digit_value_def nd_zeros_def)

lemmas text_eval =
  normalized_def is_digit_def digit_value_ascii digit_value_low digit_value_latin
  digit_value_euro is_space_def search_price_def decimal_value_def ascii_def

lemmas float_eval =
  float_of_str_def to_ascii_def strip_ascii_def ascii_space_def ascii_digit_def
  split_sign_def lower_def float_literal_def exponent_def scale10_def digit_value_ascii
  ascii_def

lemma rnd_12_50: "rnd (25 / 2) = 25 / 2" by code_simp
lemma rnd_12: "rnd 12 = 12" by code_simp
lemma rnd_1_23: "rnd (123 / 100) = 2769713770832855 / 2251799813685248" by code_simp
lemma rnd_1234_50: "rnd (2469 / 2) = 2469 / 2" by code_simp
lemma rnd_9_99: "rnd (999 / 100) = 5623870034678907 / 562949953421312" by code_simp
lemma rnd_minus_9_99: "rnd (- (999 / 100)) = - (5623870034678907 / 562949953421312)"
  by code_simp

lemma round_12_50: "round_float (25 / 2) = Finite (25 / 2)"
  by (simp add: round_float_def rnd_12_50)
lemma round_12: "round_float 12 = Finite 12"
  by (simp add: round_float_def rnd_12)
lemma round_1_23: "round_float (123 / 100) = Finite (2769713770832855 / 2251799813685248)"
  by (simp add: round_float_def rnd_1_23)
lemma round_1234_50: "round_float (2469 / 2) = Finite (2469 / 2)"
  by (simp add: round_float_def rnd_1234_50)
lemma round_9_99: "round_float (999 / 100) = Finite (5623870034678907 / 562949953421312)"
  by (simp add: round_float_def rnd_9_99)
lemma round_minus_9_99:
  "round_float (- (999 / 100)) = Finite (- (5623870034678907 / 562949953421312))"
  by (simp add: round_float_def rnd_minus_9_99)

lemma parse_euro_example:
  "parse_price_text (Some (ascii ''12,50 '' @ [8364])) = Inr (Some (Finite (25 / 2)))"
  by (simp add: parse_value text_eval round_12_50)

lemma parse_abc: "parse_price_text (Some (ascii ''abc'')) = Inr None"
  by (simp add: parse_value text_eval)

lemma parse_junk_inside:
  "parse_price_text (Some (ascii ''12.a5'')) = Inr (Some (Finite (25 / 2)))"
  "parse_price_text (Some (ascii ''1a2'')) = Inr (Some (Finite 12))"
  by (simp_all add: parse_value text_eval round_12_50 round_12)

lemma parse_thousands:
  "parse_price_text (Some (ascii ''1.234,50'')) =
   Inr (Some (Finite (2769713770832855 / 2251799813685248)))"
  by (simp add: parse_value text_eval round_1_23)

lemma float_1_23:
  "float_of_str (ascii ''1.23'') = Inr (Finite (2769713770832855 / 2251799813685248))"
  by (simp add: float_eval round_1_23)

lemma float_1234_50: "float_of_str (ascii ''1234.50'') = Inr (Finite (2469 / 2))"
  by (simp add: float_eval round_1234_50)

lemma float_minus_9_99:
  "float_of_str (ascii ''-9.99'') = Inr (Finite (- (5623870034678907 / 562949953421312)))"
  by (simp add: float_eval round_minus_9_99)

lemma parse_minus_9_99:
  "parse_price_text (Some (ascii ''-9,99'')) =
   Inr (Some (Finite (5623870034678907 / 562949953421312)))"
  by (simp add: parse_value text_eval round_9_99)


lemma normalized_truncates:
  assumes ne: "ip \<noteq> []" and dg: "list_all is_digit ip" and d1: "is_digit d1"
    and d2: "is_digit d2" and sep: "sep = comma \<or> sep = period"
  shows "search_price (normalized (ip @ sep # d1 # d2 # rest)) = Some (ip @ [period, d1, d2])"
proof -
  from dg have ipd: "\<forall>c\<in>set ip. is_digit c" by (simp add: list_all_iff)
  have ipc: "map (\<lambda>c. if c = comma then period else c) ip = ip"
    by (rule map_idI) (use ipd comma_not_digit in auto)
  have dc: "d1 \<noteq> comma" "d2 \<noteq> comma" using d1 d2 comma_not_digit by auto
  have nm: "normalized (ip @ sep # d1 # d2 # rest) = ip @ period # d1 # d2 # normalized rest"
    using ipd d1 d2 sep dc ipc by (auto simp: normalized_def)
  have dw: "dropWhile (\<lambda>c. \<not> is_digit c) (ip @ period # d1 # d2 # r) =
            ip @ period # d1 # d2 # r" for r
    using ne ipd by (cases ip) auto
  have tw: "takeWhile is_digit (ip @ period # d1 # d2 # r) = ip" for r
    using ipd period_not_digit by (simp add: takeWhile_append2)
  have dd: "dropWhile is_digit (ip @ period # d1 # d2 # r) = period # d1 # d2 # r" for r
    using ipd period_not_digit by (simp add: dropWhile_append2)
  show ?thesis
    unfolding nm search_price_alt dw tw dd using ne d1 d2 by simp
qed

text \<open>
  C4. \<open>parse_price_text\<close> returns nothing for a missing or empty text. For every text,
  take away each character that is not a digit, a comma, a period or whitespace and turn
  each comma into a period (\<open>normalized\<close>): the parser returns nothing exactly when no
  substring of that text is an integer part plus an optional fraction of one or two digits,
  and otherwise the float nearest to the number written by the first such substring; it
  never raises. In particular the text \<^verbatim>\<open>12,50\<close> followed by a space and the euro sign
  gives 12.50 and \<^verbatim>\<open>abc\<close> gives nothing; a character removed from inside a number joins
  its neighbours, so \<^verbatim>\<open>12.a5\<close> gives 12.5 and \<^verbatim>\<open>1a2\<close> gives 12.
\<close>

theorem parse_price_text_contract:
  "parse_price_text None = Inr None \<and>
   parse_price_text (Some []) = Inr None \<and>
   (parse_price_text (Some t) = Inr None \<longleftrightarrow>
      \<not> (\<exists>i m. occurs_at (normalized t) i m \<and> price_shaped m)) \<and>
   (parse_price_text (Some t) = Inr (Some x) \<longleftrightarrow>
      (\<exists>m. first_price_match (normalized t) m \<and> x = round_float (decimal_value m))) \<and>
   parse_price_text (Some t) \<noteq> Inl e \<and>
   parse_price_text (Some (ascii ''12,50 '' @ [8364])) = Inr (Some (Finite (25 / 2))) \<and>
   parse_price_text (Some (ascii ''abc'')) = Inr None \<and>
   parse_price_text (Some (ascii ''12.a5'')) = Inr (Some (Finite (25 / 2))) \<and>
   parse_price_text (Some (ascii ''1a2'')) = Inr (Some (Finite 12))"
proof -
  have a: "parse_price_text None = Inr None" "parse_price_text (Some []) = Inr None"
    by (simp_all add: parse_price_text_def)
  have b: "parse_price_text (Some t) = Inr None \<longleftrightarrow>
           \<not> (\<exists>i m. occurs_at (normalized t) i m \<and> price_shaped m)"
    using search_price_None_iff [of "normalized t"] by (simp add: parse_value)
  have c: "parse_price_text (Some t) = Inr (Some x) \<longleftrightarrow>
           (\<exists>m. first_price_match (normalized t) m \<and> x = round_float (decimal_value m))"
    by (auto simp: parse_value search_price_iff [symmetric])
  have d: "parse_price_text (Some t) \<noteq> Inl e" by (simp add: parse_value)
  from a b c d parse_euro_example parse_abc parse_junk_inside show ?thesis by blast
qed

theorem parse_price_text_contract_witness:
  "first_price_match (normalized (ascii ''EUR 9,99 net'')) (ascii ''9.99'') \<and>
   parse_price_text (Some (ascii ''EUR 9,99 net'')) =
     Inr (Some (Finite (5623870034678907 / 562949953421312)))"
proof -
  have p: "parse_price_text (Some (ascii ''EUR 9,99 net'')) =
           Inr (Some (Finite (5623870034678907 / 562949953421312)))"
    by (simp add: parse_value text_eval round_9_99)
  have s: "search_price (normalized (ascii ''EUR 9,99 net'')) = Some (ascii ''9.99'')"
    by (simp add: text_eval)
  from parse_price_text_contract
    [of "ascii ''EUR 9,99 net''" "Finite (5623870034678907 / 562949953421312)"] p
  obtain m where m: "first_price_match (normalized (ascii ''EUR 9,99 net'')) m" by blast
  with s have "m = ascii ''9.99''" by (simp add: search_price_iff [symmetric])
  with m p show ?thesis by simp
qed

text \<open>
  C9. \<open>parse_price_text\<close> on \<^verbatim>\<open>1.234,50\<close> returns the float 1.23, not 1234.50: whenever a
  run of digits is followed by a comma or a period and two more digits, the match ends after
  those two digits, so a value written with a thousands separator is cut at the separator.
\<close>

theorem parse_truncates_at_separator:
  "parse_price_text (Some (ascii ''1.234,50'')) =
     Inr (Some (Finite (2769713770832855 / 2251799813685248))) \<and>
   float_of_str (ascii ''1.23'') = Inr (Finite (2769713770832855 / 2251799813685248)) \<and>
   float_of_str (ascii ''1234.50'') = Inr (Finite (2469 / 2)) \<and>
   (ip \<noteq> [] \<and> list_all is_digit ip \<and> is_digit d1 \<and> is_digit d2 \<and>
    (sep = comma \<or> sep = period) \<longrightarrow>
      (\<exists>x. float_of_str (ip @ [period, d1, d2]) = Inr x \<and>
           x = round_float (decimal_value (ip @ [period, d1, d2])) \<and>
           parse_price_text (Some (ip @ sep # d1 # d2 # rest)) = Inr (Some x)))"
proof -
  have g: "\<exists>x. float_of_str (ip @ [period, d1, d2]) = Inr x \<and>
             x = round_float (decimal_value (ip @ [period, d1, d2])) \<and>
             parse_price_text (Some (ip @ sep # d1 # d2 # rest)) = Inr (Some x)"
    if ne: "ip \<noteq> []" and dg: "list_all is_digit ip" and d1: "is_digit d1"
      and d2: "is_digit d2" and sep: "sep = comma \<or> sep = period"
  proof -
    have "price_shaped (ip @ [period, d1, d2])"
      unfolding price_shaped_def using ne dg d1 d2
      by (intro exI [of _ ip] exI [of _ "[period, d1, d2]"]) simp
    then have "float_of_str (ip @ [period, d1, d2]) =
               Inr (round_float (decimal_value (ip @ [period, d1, d2])))"
      by (rule float_of_str_price_shaped)
    moreover have "parse_price_text (Some (ip @ sep # d1 # d2 # rest)) =
               Inr (Some (round_float (decimal_value (ip @ [period, d1, d2]))))"
      by (simp add: parse_value normalized_truncates [OF that])
    ultimately show ?thesis by blast
  qed
  from parse_thousands float_1_23 float_1234_50 g show ?thesis by blast
qed

theorem parse_truncates_at_separator_witness:
  "parse_price_text (Some (ascii ''1,234.50'')) =
   Inr (Some (Finite (2769713770832855 / 2251799813685248)))"
proof -
  have h: "ascii ''1'' \<noteq> [] \<and> list_all is_digit (ascii ''1'') \<and> is_digit 50 \<and> is_digit 51 \<and>
           (comma = comma \<or> comma = period)"
    by (simp add: ascii_def is_digit_def digit_value_ascii)
  have e: "ascii ''1'' @ [period, 50, 51] = ascii ''1.23''"
    "ascii ''1'' @ comma # 50 # 51 # ascii ''4.50'' = ascii ''1,234.50''"
    by (simp_all add: ascii_def)
  from parse_truncates_at_separator [of "ascii ''1''" 50 51 comma "ascii ''4.50''"] h
  obtain x where "float_of_str (ascii ''1'' @ [period, 50, 51]) = Inr x"
    and "parse_price_text (Some (ascii ''1'' @ comma # 50 # 51 # ascii ''4.50'')) = Inr (Some x)"
    by blast
  then show ?thesis by (simp only: e float_1_23 sum.inject)
qed

text \<open>
  C10. Whenever \<open>parse_price_text\<close> returns a number, the number is nonnegative. The float
  reader itself is signed (it reads \<^verbatim>\<open>-9.99\<close> as a negative number); the parser hands it
  only a match of the pattern, which holds digits and at most one period, so the number read
  is the float nearest to a nonnegative decimal.
\<close>

theorem parse_price_text_nonneg:
  "(parse_price_text text = Inr (Some x) \<longrightarrow> nonnegative x) \<and>
   float_of_str (ascii ''-9.99'') = Inr (Finite (- (5623870034678907 / 562949953421312))) \<and>
   \<not> nonnegative (Finite (- (5623870034678907 / 562949953421312)))"
proof -
  have "nonnegative x" if p: "parse_price_text text = Inr (Some x)"
  proof (cases "text")
    case None
    with p show ?thesis by (simp add: parse_price_text_def)
  next
    case (Some t)
    with p obtain m where "search_price (normalized t) = Some m"
      and x: "x = round_float (decimal_value m)"
      by (auto simp: parse_value)
    from x show ?thesis by (simp add: round_float_nonneg decimal_value_nonneg)
  qed
  with float_minus_9_99 show ?thesis by simp
qed

theorem parse_price_text_nonneg_witness:
  "parse_price_text (Some (ascii ''-9,99'')) =
     Inr (Some (Finite (5623870034678907 / 562949953421312))) \<and>
   nonnegative (Finite (5623870034678907 / 562949953421312))"
  using parse_price_text_nonneg
    [of "Some (ascii ''-9,99'')" "Finite (5623870034678907 / 562949953421312)"]
    parse_minus_9_99
  by simp


section \<open>The savings computed\<close>

lemma rnd_1: "rnd 1 = 1" by code_simp
lemma rnd_third: "rnd (1 / 3) = 6004799503160661 / 18014398509481984" by code_simp
lemma rnd_third_100:
  "rnd (150119987579016525 / 4503599627370496) = 2345624805922133 / 70368744177664"
  by code_simp
lemma rnd_100: "rnd 100 = 100" by code_simp
lemma rnd_100_third: "rnd (100 / 3) = 4691249611844267 / 140737488355328" by code_simp

lemma fsub_3_2: "fsub (Finite 3) (Finite 2) = Finite 1"
  by (simp add: round_float_def rnd_1)

lemma fdiv_1_3: "fdiv (Finite 1) (Finite 3) = Inr (Finite (6004799503160661 / 18014398509481984))"
  by (simp add: round_float_def rnd_third)

lemma fmul_third_100:
  "fmul (Finite (6004799503160661 / 18014398509481984)) (Finite 100) =
   Finite (2345624805922133 / 70368744177664)"
  by (simp add: round_float_def rnd_third_100)

lemma fmul_100_1: "fmul (Finite 100) (Finite 1) = Finite 100"
  by (simp add: round_float_def rnd_100)

lemma fdiv_100_3: "fdiv (Finite 100) (Finite 3) = Inr (Finite (4691249611844267 / 140737488355328))"
  by (simp add: round_float_def rnd_100_third)

lemma savings_3_2:
  "calculate_savings (Some (Finite 3)) (Some (Finite 2)) =
   Inr (Some (Finite 1), Some (Finite (2345624805922133 / 70368744177664)))"
  by (simp add: calculate_savings_def then_do_def fsub_3_2 fdiv_1_3 fmul_third_100
        del: fsub.simps fdiv.simps fmul.simps)

lemma spec_order_3_2:
  "fdiv (fmul (Finite 100) (fsub (Finite 3) (Finite 2))) (Finite 3) =
   Inr (Finite (4691249611844267 / 140737488355328))"
  by (simp only: fsub_3_2 fmul_100_1 fdiv_100_3)

lemma fdiv_total: "\<not> is_zero s \<Longrightarrow> \<exists>q. fdiv x s = Inr q"
  by (cases x; cases s) simp_all

lemma calculate_savings_guards:
  "calculate_savings None g = Inr (None, None)"
  "calculate_savings s None = Inr (None, None)"
  "calculate_savings (Some (Finite 0)) g = Inr (None, None)"
  by (simp_all add: calculate_savings_def split: option.splits)

lemma calculate_savings_value:
  assumes "\<not> is_zero s"
  shows "\<exists>q. fdiv (fsub s g) s = Inr q \<and>
             calculate_savings (Some s) (Some g) = Inr (Some (fsub s g), Some (fmul q (Finite 100)))"
proof -
  from fdiv_total [OF assms] obtain q where "fdiv (fsub s g) s = Inr q" by blast
  with assms show ?thesis by (simp add: calculate_savings_def then_do_def)
qed

lemma round_float_finite: "\<bar>rnd x\<bar> < 2 ^ 1024 \<Longrightarrow> round_float x = Finite (rnd x)"
  by (auto simp: round_float_def abs_if split: if_splits)

lemma calculate_savings_finite:
  assumes "a \<noteq> 0" and "\<bar>rnd (a - b)\<bar> < 2 ^ 1024" and "\<bar>rnd (rnd (a - b) / a)\<bar> < 2 ^ 1024"
    and "\<bar>rnd (rnd (rnd (a - b) / a) * 100)\<bar> < 2 ^ 1024"
  shows "calculate_savings (Some (Finite a)) (Some (Finite b)) =
         Inr (Some (Finite (rnd (a - b))), Some (Finite (rnd (rnd (rnd (a - b) / a) * 100))))"
  using assms by (simp add: calculate_savings_def then_do_def round_float_finite)


lemma nearest_even_error: "\<bar>of_int (nearest_even n) - n\<bar> \<le> 1 / 2"
proof -
  define d where "d = n - of_int \<lfloor>n\<rfloor>"
  have d: "0 \<le> d" "d < 1" unfolding d_def by linarith+
  have n: "n = of_int \<lfloor>n\<rfloor> + d" by (simp add: d_def)
  have "nearest_even n = \<lfloor>n\<rfloor> \<and> d \<le> 1 / 2 \<or> nearest_even n = \<lfloor>n\<rfloor> + 1 \<and> 1 / 2 \<le> d"
    unfolding nearest_even_def Let_def d_def [symmetric] by auto
  then show ?thesis
  proof (elim disjE conjE)
    assume "nearest_even n = \<lfloor>n\<rfloor>" "d \<le> 1 / 2"
    then have "of_int (nearest_even n) - n = - d" using n by simp
    with d \<open>d \<le> 1 / 2\<close> show ?thesis by simp
  next
    assume "nearest_even n = \<lfloor>n\<rfloor> + 1" "1 / 2 \<le> d"
    then have "of_int (nearest_even n) - n = 1 - d" using n by simp
    with d \<open>1 / 2 \<le> d\<close> show ?thesis by simp
  qed
qed

lemma rnd_error: "\<bar>rnd x - x\<bar> \<le> ulp x / 2"
proof (cases "x = 0")
  case True
  then show ?thesis using pow2_pos [of "max (ilog2 \<bar>x\<bar>) (- 1022) - 52"]
    by (simp add: rnd_def ulp_def)
next
  case False
  have u: "0 < ulp x" by (simp add: ulp_def pow2_pos)
  have "rnd x - x = (of_int (nearest_even (x / ulp x)) - x / ulp x) * ulp x"
    using False u by (simp add: rnd_def algebra_simps)
  then have "\<bar>rnd x - x\<bar> = \<bar>of_int (nearest_even (x / ulp x)) - x / ulp x\<bar> * ulp x"
    using u by (simp add: abs_mult)
  also have "\<dots> \<le> 1 / 2 * ulp x"
    using nearest_even_error [of "x / ulp x"] u by (intro mult_right_mono) simp_all
  finally show ?thesis by simp
qed

text \<open>
  C1, as amended. \<open>calculate_savings\<close> returns two absent fields when the reference price is
  absent, when the quote is absent, and when the reference price is zero; it never raises.
  Otherwise the absolute saving is the float \<open>reference - quote\<close> and the percentage is
  the float product by 100 of the float quotient of that saving by the reference: three
  float operations in this order, each rounded to the nearest float (within half a unit in
  the last place of its exact result), so the percentage is not in general the exact number
  \<open>100 * (reference - quote) / reference\<close>.
\<close>

theorem calculate_savings_rounded:
  "calculate_savings None g = Inr (None, None) \<and>
   calculate_savings s None = Inr (None, None) \<and>
   calculate_savings (Some (Finite 0)) g = Inr (None, None) \<and>
   (\<not> is_zero s' \<longrightarrow>
      (\<exists>q. fdiv (fsub s' g') s' = Inr q \<and>
           calculate_savings (Some s') (Some g') =
             Inr (Some (fsub s' g'), Some (fmul q (Finite 100))))) \<and>
   (a \<noteq> 0 \<and> \<bar>rnd (a - b)\<bar> < 2 ^ 1024 \<and> \<bar>rnd (rnd (a - b) / a)\<bar> < 2 ^ 1024 \<and>
    \<bar>rnd (rnd (rnd (a - b) / a) * 100)\<bar> < 2 ^ 1024 \<longrightarrow>
      calculate_savings (Some (Finite a)) (Some (Finite b)) =
        Inr (Some (Finite (rnd (a - b))), Some (Finite (rnd (rnd (rnd (a - b) / a) * 100))))) \<and>
   \<bar>rnd x - x\<bar> \<le> ulp x / 2"
  using calculate_savings_guards [of g] calculate_savings_guards(2) [of s]
    calculate_savings_value [of s' g'] calculate_savings_finite [of a b] rnd_error [of x]
  by blast

theorem calculate_savings_rounded_witness:
  "\<not> is_zero (Finite 3) \<and> (3 :: rat) \<noteq> 0 \<and> \<bar>rnd (3 - 2)\<bar> < 2 ^ 1024 \<and>
   calculate_savings (Some (Finite 3)) (Some (Finite 2)) =
     Inr (Some (Finite 1), Some (Finite (2345624805922133 / 70368744177664)))"
proof -
  have h: "(3 :: rat) \<noteq> 0 \<and> \<bar>rnd (3 - 2)\<bar> < 2 ^ 1024 \<and> \<bar>rnd (rnd (3 - 2) / 3)\<bar> < 2 ^ 1024 \<and>
        \<bar>rnd (rnd (rnd (3 - 2) / 3) * 100)\<bar> < 2 ^ 1024"
    by (simp add: rnd_1 rnd_third rnd_third_100)
  have v: "rnd (3 - 2) = 1" "rnd (rnd (rnd (3 - 2) / 3) * 100) = 2345624805922133 / 70368744177664"
    by (simp_all add: rnd_1 rnd_third rnd_third_100)
  from calculate_savings_rounded [of _ _ "Finite 3" "Finite 2" 3 2] h
  have "calculate_savings (Some (Finite 3)) (Some (Finite 2)) =
        Inr (Some (Finite (rnd (3 - 2))), Some (Finite (rnd (rnd (rnd (3 - 2) / 3) * 100))))"
    by blast
  with h show ?thesis by (simp add: rnd_1 rnd_third rnd_third_100)
qed

text \<open>
  At the reference price 3 and the quote 2 the percentage returned is the float
  33.33333333333333, which is neither the number \<open>100 / 3\<close> nor the float that the
  expression \<^verbatim>\<open>100 * (3 - 2) / 3\<close> evaluates to.
\<close>

theorem calculate_savings_percent_inexact:
  "calculate_savings (Some (Finite 3)) (Some (Finite 2)) =
     Inr (Some (Finite 1), Some (Finite (2345624805922133 / 70368744177664))) \<and>
   (2345624805922133 / 70368744177664 :: rat) \<noteq> 100 * (3 - 2) / 3 \<and>
   fdiv (fmul (Finite 100) (fsub (Finite 3) (Finite 2))) (Finite 3) \<noteq>
     Inr (Finite (2345624805922133 / 70368744177664))"
proof -
  have "(2345624805922133 / 70368744177664 :: rat) \<noteq> 100 * (3 - 2) / 3" by simp
  moreover have "(4691249611844267 / 140737488355328 :: rat) \<noteq> 2345624805922133 / 70368744177664"
    by simp
  ultimately show ?thesis by (simp only: savings_3_2 spec_order_3_2 sum.inject pyfloat.inject simp_thms)
qed



section \<open>The Steam price lookup answers\<close>

lemma str_of_int_570: "str_of_int 570 = ascii ''570''"
  by (simp add: str_of_int_def ascii_def)

lemma rnd_19_99: "rnd (1999 / 100) = 5626684784446013 / 281474976710656" by code_simp

lemma steam_lookup_falsy_overview:
  assumes "subscript data (str_of_int app_id) = Inr entry"
    and "subscript entry (ascii ''success'') = Inr success" and "truthy success"
    and "subscript entry (ascii ''data'') = Inr d"
    and "get_method d (ascii ''price_overview'') = Inr price_info" and "\<not> truthy price_info"
  shows "get_steam_price (Json data) app_id = Some (Finite 0)"
  using assms by (simp add: get_steam_price_def steam_lookup_def then_do_def)

lemma steam_lookup_missing_overview:
  assumes "subscript data (str_of_int app_id) = Inr entry"
    and "subscript entry (ascii ''success'') = Inr success" and "truthy success"
    and "subscript entry (ascii ''data'') = Inr (JDict kvs)"
    and "map_of kvs (ascii ''price_overview'') = None"
  shows "get_steam_price (Json data) app_id = Some (Finite 0)"
proof -
  from assms(5) have "get_method (JDict kvs) (ascii ''price_overview'') = Inr JNull"
    by (simp only: get_method.simps option.case)
  with assms(1-4) show ?thesis
    by (rule steam_lookup_falsy_overview) simp
qed

lemma steam_lookup_unsuccessful:
  assumes "subscript data (str_of_int app_id) = Inr entry"
    and "subscript entry (ascii ''success'') = Inr success" and "\<not> truthy success"
  shows "get_steam_price (Json data) app_id = None"
  using assms by (simp add: get_steam_price_def steam_lookup_def then_do_def)

lemma steam_lookup_priced:
  assumes "subscript data (str_of_int app_id) = Inr entry"
    and "subscript entry (ascii ''success'') = Inr success" and "truthy success"
    and "subscript entry (ascii ''data'') = Inr d"
    and "get_method d (ascii ''price_overview'') = Inr price_info" and "truthy price_info"
    and "subscript price_info (ascii ''final'') = Inr (JInt cents)"
    and "\<bar>rnd (of_int cents / 100)\<bar> < 2 ^ 1024"
  shows "get_steam_price (Json data) app_id = Some (Finite (rnd (of_int cents / 100)))"
  using assms by (simp add: get_steam_price_def steam_lookup_def then_do_def true_div_def)

lemma free_game_entry:
  "subscript (JDict [(ascii ''570'',
       JDict [(ascii ''success'', JBool True),
              (ascii ''data'', JDict [(ascii ''is_free'', JBool True)])])]) (ascii ''570'') =
   Inr (JDict [(ascii ''success'', JBool True),
               (ascii ''data'', JDict [(ascii ''is_free'', JBool True)])])"
  "subscript (JDict [(ascii ''success'', JBool True),
               (ascii ''data'', JDict [(ascii ''is_free'', JBool True)])]) (ascii ''success'') =
   Inr (JBool True)"
  "subscript (JDict [(ascii ''success'', JBool True),
               (ascii ''data'', JDict [(ascii ''is_free'', JBool True)])]) (ascii ''data'') =
   Inr (JDict [(ascii ''is_free'', JBool True)])"
  "map_of [(ascii ''is_free'', JBool True)] (ascii ''price_overview'') = None"
  by (simp_all add: ascii_def)

text \<open>
  C2, as amended. When the endpoint reports success for the game and the data holds no
  price overview (the field is missing, or null, or any falsy value), \<open>get_steam_price\<close>
  returns the amount zero, not an absent amount. It returns an absent amount when the
  request fails, when the body does not decode, and when the entry reports no success;
  the zero amount and the absent amount are distinct results.
\<close>

theorem get_steam_price_no_overview:
  assumes "subscript data (str_of_int app_id) = Inr entry"
    and "subscript entry (ascii ''success'') = Inr success"
  shows "(truthy success \<and> subscript entry (ascii ''data'') = Inr (JDict kvs) \<and>
          map_of kvs (ascii ''price_overview'') = None \<longrightarrow>
            get_steam_price (Json data) app_id = Some (Finite 0)) \<and>
         (truthy success \<and> subscript entry (ascii ''data'') = Inr d \<and>
          get_method d (ascii ''price_overview'') = Inr price_info \<and> \<not> truthy price_info \<longrightarrow>
            get_steam_price (Json data) app_id = Some (Finite 0)) \<and>
         (\<not> truthy success \<longrightarrow> get_steam_price (Json data) app_id = None) \<and>
         get_steam_price RequestFails app_id = None \<and>
         get_steam_price NotJson app_id = None \<and>
         Some (Finite 0) \<noteq> (None :: pyfloat option)"
  using steam_lookup_missing_overview [OF assms, of kvs]
    steam_lookup_falsy_overview [OF assms, of d price_info]
    steam_lookup_unsuccessful [OF assms]
  by (simp add: get_steam_price_def)

theorem get_steam_price_no_overview_witness:
  "get_steam_price
     (Json (JDict [(ascii ''570'',
        JDict [(ascii ''success'', JBool True),
               (ascii ''data'', JDict [(ascii ''is_free'', JBool True)])])])) 570 =
     Some (Finite 0) \<and>
   get_steam_price
     (Json (JDict [(ascii ''570'', JDict [(ascii ''success'', JBool False)])])) 570 = None"
proof -
  have a: "subscript (JDict [(ascii ''570'', JDict [(ascii ''success'', JBool False)])])
             (str_of_int 570) = Inr (JDict [(ascii ''success'', JBool False)])"
    "subscript (JDict [(ascii ''success'', JBool False)]) (ascii ''success'') = Inr (JBool False)"
    by (simp_all add: str_of_int_570 ascii_def)
  have b: "subscript (JDict [(ascii ''570'',
       JDict [(ascii ''success'', JBool True),
              (ascii ''data'', JDict [(ascii ''is_free'', JBool True)])])]) (str_of_int 570) =
   Inr (JDict [(ascii ''success'', JBool True),
               (ascii ''data'', JDict [(ascii ''is_free'', JBool True)])])"
    by (simp only: str_of_int_570 free_game_entry)
  from get_steam_price_no_overview [OF b free_game_entry(2), of "[(ascii ''is_free'', JBool True)]"]
    free_game_entry(3,4)
  have 1: "get_steam_price
     (Json (JDict [(ascii ''570'',
        JDict [(ascii ''success'', JBool True),
               (ascii ''data'', JDict [(ascii ''is_free'', JBool True)])])])) 570 =
     Some (Finite 0)" by simp
  from get_steam_price_no_overview [OF a]
  have 2: "get_steam_price
     (Json (JDict [(ascii ''570'', JDict [(ascii ''success'', JBool False)])])) 570 = None"
    by simp
  from 1 2 show ?thesis ..
qed

text \<open>
  For a free game the endpoint answers with success and data that hold no price overview;
  the lookup then returns the amount zero.
\<close>

theorem get_steam_price_free_game_zero:
  "get_steam_price
     (Json (JDict [(ascii ''570'',
        JDict [(ascii ''success'', JBool True),
               (ascii ''data'', JDict [(ascii ''is_free'', JBool True)])])])) 570 =
     Some (Finite 0) \<and>
   map_of [(ascii ''is_free'', JBool True)] (ascii ''price_overview'') = None \<and>
   Some (Finite 0) \<noteq> (None :: pyfloat option)"
  by (simp add: get_steam_price_def steam_lookup_def then_do_def str_of_int_570)
     (simp add: ascii_def)

lemma get_steam_price_priced_example:
  "get_steam_price
     (Json (JDict [(ascii ''570'',
        JDict [(ascii ''success'', JBool True),
               (ascii ''data'', JDict [(ascii ''price_overview'',
                  JDict [(ascii ''final'', JInt 1999)])])])])) 570 =
     Some (Finite (5626684784446013 / 281474976710656))"
  by (simp add: get_steam_price_def steam_lookup_def then_do_def str_of_int_570 true_div_def
        rnd_19_99)
     (simp add: ascii_def)


section \<open>Runs of the browser functions\<close>

lemma io_bind_fst:
  "fst (io_bind m f) = (case fst m of Inl e \<Rightarrow> Inl e | Inr x \<Rightarrow> fst (f x))"
  by (simp add: io_bind_def split: sum.splits)

lemma io_bind_snd:
  "snd (io_bind m f) = (case fst m of Inl e \<Rightarrow> snd m | Inr x \<Rightarrow> snd m @ snd (f x))"
  by (simp add: io_bind_def split: sum.splits)

lemma io_bind_raises: "fst m = Inl e \<Longrightarrow> io_bind m f = (Inl e, snd m)"
  by (simp add: io_bind_def)

lemma io_bind_returns: "fst m = Inr x \<Longrightarrow> io_bind m f = (fst (f x), snd m @ snd (f x))"
  by (simp add: io_bind_def)

lemma io_bind_return [simp]: "io_bind (io_return x) f = f x"
  by (simp add: io_bind_def io_return_def)

lemma io_call_simps [simp]:
  "fst (io_call c outcome) = outcome"
  "snd (io_call c (Inr x)) = [(c, True)]"
  "snd (io_call c (Inl e)) = [(c, False)]"
  by (simp_all add: io_call_def)

lemma io_return_simps [simp]: "fst (io_return x) = Inr x" "snd (io_return x) = []"
  by (simp_all add: io_return_def)

lemma io_pure_simps [simp]: "fst (io_pure r) = r" "snd (io_pure r) = []"
  by (simp_all add: io_pure_def)

lemma io_try_raises: "fst m = Inl e \<Longrightarrow> io_try m h = (fst h, snd m @ snd h)"
  by (simp add: io_try_def)

lemma io_try_returns: "fst m = Inr x \<Longrightarrow> io_try m h = m"
  by (simp add: io_try_def)

text \<open>The wait, the pause and the second wait at the head of \<open>extract_first_offer\<close>.\<close>

lemma await_first:
  assumes "fst w1 = Inr u"
  shows "io_try (io_bind w1 (\<lambda>_. io_return True)) h = (Inr True, snd w1)"
  using assms by (simp add: io_try_def io_bind_def)

lemma await_pause_raises:
  assumes "fst w1 = Inl e" and "p = Inl e'"
  shows "io_try (io_bind w1 (\<lambda>_. io_return True))
           (io_bind (io_call (WaitForTimeout 1000) p) (\<lambda>_. h)) =
         (Inl e', snd w1 @ [(WaitForTimeout 1000, False)])"
  using assms by (simp add: io_try_def io_bind_def)

lemma await_second:
  assumes "fst w1 = Inl e" and "p = Inr ()"
  shows "io_try (io_bind w1 (\<lambda>_. io_return True))
           (io_bind (io_call (WaitForTimeout 1000) p) (\<lambda>_.
            io_try (io_bind w2 (\<lambda>_. io_return True)) (io_return False))) =
         (Inr (case fst w2 of Inl e \<Rightarrow> False | Inr u \<Rightarrow> True),
          snd w1 @ [(WaitForTimeout 1000, True)] @ snd w2)"
  using assms by (simp add: io_try_def io_bind_def split: sum.splits)

lemma extract_gives_up:
  assumes "fst (wait_for_offer_rows (first_wait page) 25000) = Inl e1"
    and "pause page = Inr ()"
    and "fst (wait_for_offer_rows (second_wait page) 25000) = Inl e2"
  shows "extract_first_offer page =
         (Inr (None, None),
          snd (wait_for_offer_rows (first_wait page) 25000) @ [(WaitForTimeout 1000, True)] @
          snd (wait_for_offer_rows (second_wait page) 25000))"
  unfolding extract_first_offer_def await_second [OF assms(1,2)]
  using assms(3) by (simp add: io_bind_def)

lemma waits_append [simp]: "waits (s @ t) = waits s + waits t"
  by (simp add: waits_def)

lemma waits_Nil [simp]: "waits [] = 0"
  by (simp add: waits_def)

lemma waits_waiter: "waits (snd (wait_for_offer_rows w 25000)) = 1"
  by (cases "table_attached w"; cases "row_attached w"; cases "scrolled w";
      cases "price_visible w")
     (simp_all add: wait_for_offer_rows_def io_bind_snd waits_def)

lemma accept_cookies_loop_returns: "fst (accept_cookies_loop page sels) = Inr ()"
proof (induction sels)
  case Nil
  show ?case by simp
next
  case (Cons sel sels)
  show ?case
  proof (cases "page sel")
    case (Inl e)
    then show ?thesis using Cons by (simp add: io_try_def io_bind_def)
  next
    case (Inr el)
    show ?thesis
    proof (cases el)
      case None
      with Inr show ?thesis using Cons by (simp add: io_try_def io_bind_def)
    next
      case (Some click)
      with Inr show ?thesis using Cons by (cases click) (simp_all add: io_try_def io_bind_def)
    qed
  qed
qed

lemma accept_cookies_returns: "fst (accept_cookies_if_present page) = Inr ()"
  by (simp add: accept_cookies_if_present_def accept_cookies_loop_returns)

lemma parse_price_text_returns: "\<exists>p. parse_price_text t = Inr p"
  by (cases t) (simp_all add: parse_value, simp add: parse_price_text_def)

lemma extract_waits:
  "waits (snd (extract_first_offer page)) =
     (case fst (wait_for_offer_rows (first_wait page) 25000) of
        Inr u \<Rightarrow> 1
      | Inl e \<Rightarrow> (case pause page of Inl e' \<Rightarrow> 1 | Inr u \<Rightarrow> 2))"
proof (cases "fst (wait_for_offer_rows (first_wait page) 25000)")
  case (Inr u)
  show ?thesis
    unfolding extract_first_offer_def await_first [OF Inr]
    using waits_waiter [of "first_wait page"]
    by (simp add: Inr io_bind_snd io_bind_fst waits_def split: sum.splits option.splits)
next
  case (Inl e)
  show ?thesis
  proof (cases "pause page")
    case p: (Inl e')
    show ?thesis
      unfolding extract_first_offer_def await_pause_raises [OF Inl p]
      using waits_waiter [of "first_wait page"]
      by (simp add: Inl p io_bind_snd io_bind_fst waits_def)
  next
    case p: (Inr u)
    then have p': "pause page = Inr ()" by simp
    show ?thesis
      unfolding extract_first_offer_def await_second [OF Inl p']
      using waits_waiter [of "first_wait page"] waits_waiter [of "second_wait page"]
      by (simp add: Inl p io_bind_snd io_bind_fst waits_def split: sum.splits option.splits)
  qed
qed

lemma extract_reads:
  assumes rows: "fst (wait_for_offer_rows (first_wait page) 25000) = Inr u \<or>
      (fst (wait_for_offer_rows (first_wait page) 25000) = Inl e \<and> pause page = Inr () \<and>
       fst (wait_for_offer_rows (second_wait page) 25000) = Inr u')"
    and pc: "price_cell page = Inr (map_option Inr pt)"
    and mc: "merchant_cell page = Inr (map_option Inr mt)"
    and pr: "parse_price_text (map_option (\<lambda>t. strip (or_empty t)) pt) = Inr p"
  shows "fst (extract_first_offer page) =
         Inr (p, Some (case mt of None \<Rightarrow> ascii ''N/A'' | Some t \<Rightarrow> strip (or_empty t)))"
  using rows
proof
  assume w: "fst (wait_for_offer_rows (first_wait page) 25000) = Inr u"
  show ?thesis
    unfolding extract_first_offer_def await_first [OF w]
    using pr by (cases pt; cases mt) (simp_all add: pc mc io_bind_fst)
next
  assume "fst (wait_for_offer_rows (first_wait page) 25000) = Inl e \<and> pause page = Inr () \<and>
       fst (wait_for_offer_rows (second_wait page) 25000) = Inr u'"
  then have w: "fst (wait_for_offer_rows (first_wait page) 25000) = Inl e"
    and p: "pause page = Inr ()"
    and w2: "fst (wait_for_offer_rows (second_wait page) 25000) = Inr u'" by simp_all
  show ?thesis
    unfolding extract_first_offer_def await_second [OF w p]
    using pr by (cases pt; cases mt) (simp_all add: pc mc w2 io_bind_fst)
qed

subsection \<open>Calls that leave the session alone\<close>

lemma step_quiet: "\<not> session_call c \<Longrightarrow> step r (c, ok) = r"
  by (cases c) (simp_all add: session_call_def)

lemma run_quiet: "quiet t \<Longrightarrow> foldl step r t = r"
  by (induction t arbitrary: r) (auto simp: quiet_def step_quiet)

lemma quiet_Nil [simp]: "quiet []"
  by (simp add: quiet_def)

lemma quiet_append [simp]: "quiet (s @ t) \<longleftrightarrow> quiet s \<and> quiet t"
  by (simp add: quiet_def)

lemma quiet_single [simp]: "quiet [e] \<longleftrightarrow> \<not> session_call (fst e)"
  by (simp add: quiet_def)

lemma quiet_tidy: "quiet t \<Longrightarrow> tidy t"
  by (cases t rule: rev_cases) (simp_all add: tidy_def)

lemma tidy_append: "quiet s \<Longrightarrow> tidy t \<Longrightarrow> tidy (s @ t)"
proof (cases t rule: rev_cases)
  case Nil
  assume "quiet s"
  with Nil show ?thesis by (simp add: quiet_tidy)
next
  case (snoc ys y)
  assume "quiet s" "tidy t"
  with snoc show ?thesis by (simp add: tidy_def butlast_append)
qed

lemma quiet_call: "\<not> session_call c \<Longrightarrow> quiet (snd (io_call c outcome))"
  by (cases outcome) simp_all

lemma quiet_return: "quiet (snd (io_return x))"
  by simp

lemma quiet_pure: "quiet (snd (io_pure r))"
  by simp

lemma quiet_bind:
  "quiet (snd m) \<Longrightarrow> (\<And>x. quiet (snd (f x))) \<Longrightarrow> quiet (snd (io_bind m f))"
  by (simp add: io_bind_snd split: sum.splits)

lemma quiet_try: "quiet (snd m) \<Longrightarrow> quiet (snd h) \<Longrightarrow> quiet (snd (io_try m h))"
  by (simp add: io_try_def split: sum.splits)

lemma tidy_bind:
  "quiet (snd m) \<Longrightarrow> (\<And>x. tidy (snd (f x))) \<Longrightarrow> tidy (snd (io_bind m f))"
  by (simp add: io_bind_snd quiet_tidy tidy_append split: sum.splits)

lemma tidy_close: "tidy (snd (io_bind (io_call BrowserClose outcome) (\<lambda>_. io_return x)))"
  by (cases outcome) (simp_all add: io_bind_snd tidy_def)

lemma quiet_cookies_loop: "quiet (snd (accept_cookies_loop page sels))"
proof (induction sels)
  case Nil
  show ?case by simp
next
  case (Cons sel sels)
  have q: "\<not> session_call (QuerySelector sel)" "\<not> session_call (Click sel 1000)"
    by (simp_all add: session_call_def)
  show ?case
    unfolding accept_cookies_loop.simps
    by (intro quiet_bind quiet_try quiet_call q quiet_return)
       (auto simp: Cons quiet_call q quiet_bind split: option.splits)
qed

lemma quiet_cookies: "quiet (snd (accept_cookies_if_present page))"
  by (simp add: accept_cookies_if_present_def quiet_cookies_loop)

lemma quiet_waiter: "quiet (snd (wait_for_offer_rows w timeout_ms))"
  unfolding wait_for_offer_rows_def
  by (intro quiet_bind quiet_call) (simp_all add: session_call_def)

lemma quiet_extract: "quiet (snd (extract_first_offer page))"
  unfolding extract_first_offer_def
  by (intro quiet_bind quiet_try quiet_waiter quiet_return quiet_call)
     (auto simp: session_call_def intro!: quiet_bind quiet_call quiet_return quiet_pure
        split: option.splits)


end
